theory Spec2Isabelle
  imports Main "HOL-Library.AList" "HOL-Library.Char_ord" "HOL-Library.List_Lexorder"
begin

section \<open>Data model\<close>

text \<open>
  The development embeds the synchronisation core of the biometric updater:
  \<^verbatim>\<open>BiometricSyncService\<close> (the orchestrator), \<^verbatim>\<open>BiometricDeviceManager\<close> and
  \<^verbatim>\<open>BiometricDeviceFactory\<close> (the registry), the device list loading of \<^verbatim>\<open>Config\<close> and
  the record formatting and window filter of \<^verbatim>\<open>ZKTecoAdapter.getAttendanceData\<close>.

  An awaited call either resolves with a value or rejects with an \<^verbatim>\<open>Error\<close>; an error is
  represented by its \<^verbatim>\<open>message\<close>, the only part of it the code reads. \<open>Inl m\<close> is a
  rejection (or a synchronous throw) with message \<open>m\<close>, \<open>Inr v\<close> a normal result.
  Calls of \<^verbatim>\<open>this.logger\<close> write to the console only and are not modelled.
\<close>

type_synonym device_id = string
type_synonym message = string
type_synonym 'a outcome = "message + 'a"

text \<open>
  A JavaScript \<^verbatim>\<open>Date\<close> that holds a valid time, as milliseconds since the epoch. The
  service only passes the two dates of the window on to the device (and prints them).
\<close>

datatype jsdate = JSDate int

text \<open>The record objects built by \<^verbatim>\<open>ZKTecoAdapter.getAttendanceData\<close>.\<close>

record time_record =
  employeeNumber :: string
  timeRecord :: string
  inOutMode :: int
  verifyMode :: int
  ipAddress :: string
  location :: string

text \<open>What \<^verbatim>\<open>getDeviceInfo()\<close> resolves with; the orchestrator reads \<^verbatim>\<open>id\<close> and \<^verbatim>\<open>name\<close>.\<close>

record device_info =
  info_id :: device_id
  info_name :: string

text \<open>
  An entry of an \<^verbatim>\<open>errors\<close> array. The code pushes three shapes of object:
  \<^verbatim>\<open>{record, error}\<close>, \<^verbatim>\<open>{error}\<close> and \<^verbatim>\<open>{deviceId, error, type}\<close>; a property that the
  object literal does not have is \<open>None\<close>.
\<close>

record error_entry =
  err_record :: "time_record option"
  err_deviceId :: "device_id option"
  err_error :: message
  err_type :: "string option"

text \<open>
  The statistics object of \<^verbatim>\<open>syncDeviceData\<close> and \<^verbatim>\<open>syncSingleDevice\<close>. \<open>None\<close> is
  \<^verbatim>\<open>null\<close> or an absent property.
\<close>

record device_stats =
  totalRecords :: nat
  insertedRecords :: nat
  errors :: "error_entry list"
  startTime :: "jsdate option"
  endTime :: "jsdate option"

text \<open>
  A plain JavaScript object that starts as \<^verbatim>\<open>{}\<close> and is only ever assigned to, with
  object values: its own properties in the order in which the language enumerates them
  (\<^verbatim>\<open>Object.entries\<close>, \<^verbatim>\<open>for in\<close>), and the object that an assignment to \<^verbatim>\<open>__proto__\<close> made
  its prototype, if any. The own keys that are array indices (canonical decimal
  numerals below \<open>2\<^sup>3\<^sup>2 - 1\<close>) come first, in ascending numeric order, and the other keys
  follow in the order of their creation. An assignment to an own key replaces its
  value in place. An assignment to \<^verbatim>\<open>__proto__\<close> goes to the setter of \<^verbatim>\<open>Object.prototype\<close>: it
  replaces the prototype and creates no own property.
\<close>

record 'v js_object =
  obj_proto :: "'v option"
  obj_own :: "(string \<times> 'v) list"

definition emptyObject :: "'v js_object" where
  "emptyObject = \<lparr>obj_proto = None, obj_own = []\<rparr>"

definition isDigit :: "char \<Rightarrow> bool" where
  "isDigit c \<longleftrightarrow> CHR ''0'' \<le> c \<and> c \<le> CHR ''9''"

definition readNat :: "string \<Rightarrow> nat" where
  "readNat str = foldl (\<lambda>n c. 10 * n + (of_char c - 48)) 0 str"

definition arrayIndex :: "string \<Rightarrow> nat option" where
  "arrayIndex k =
     (if k \<noteq> [] \<and> list_all isDigit k \<and> (length k = 1 \<or> hd k \<noteq> CHR ''0'')
         \<and> readNat k < 4294967295
      then Some (readNat k) else None)"

fun insertIndex :: "nat \<Rightarrow> string \<Rightarrow> 'v \<Rightarrow> (string \<times> 'v) list \<Rightarrow> (string \<times> 'v) list" where
  "insertIndex n k v [] = [(k, v)]"
| "insertIndex n k v (p # ps) =
     (case arrayIndex (fst p) of
        Some j \<Rightarrow> if j < n then p # insertIndex n k v ps else (k, v) # p # ps
      | None \<Rightarrow> (k, v) # p # ps)"

definition putOwn :: "string \<Rightarrow> 'v \<Rightarrow> (string \<times> 'v) list \<Rightarrow> (string \<times> 'v) list" where
  "putOwn k v own =
     (if map_of own k \<noteq> None then AList.update k v own
      else (case arrayIndex k of
              None \<Rightarrow> own @ [(k, v)]
            | Some n \<Rightarrow> insertIndex n k v own))"

text \<open>The assignment \<^verbatim>\<open>obj[k] = v\<close>.\<close>

definition setProperty :: "string \<Rightarrow> 'v \<Rightarrow> 'v js_object \<Rightarrow> 'v js_object" where
  "setProperty k v obj =
     (if k = ''__proto__'' then obj\<lparr>obj_proto := Some v\<rparr>
      else obj\<lparr>obj_own := putOwn k v (obj_own obj)\<rparr>)"

text \<open>
  The multi-device statistics carry the per-device breakdown \<^verbatim>\<open>deviceStats\<close> in
  addition, a plain object keyed by device id.
\<close>

record sync_stats = device_stats +
  deviceStats :: "device_stats js_object"

section \<open>The collaborators and the observable trace\<close>

text \<open>
  Devices and the database are external. Their behaviour is a parameter of the model:
  every method of \<^verbatim>\<open>IBiometricDevice\<close> and \<^verbatim>\<open>IDatabaseAdapter\<close> that the service calls is a
  function of the state \<open>'w\<close> of the outside world, returning the outcome of the call and
  the next state of the world. \<open>'d\<close> is the type of device objects. The engine is a
  parameter as well: its clock, \<^verbatim>\<open>Date.prototype.toISOString\<close>, and \<open>maxSpread\<close>, the
  greatest number of arguments that a call \<^verbatim>\<open>f(...array)\<close> can spread; a longer array makes
  the call throw a \<^verbatim>\<open>RangeError\<close>.
\<close>

record ('d, 'w) env =
  dev_connect :: "'d \<Rightarrow> 'w \<Rightarrow> unit outcome \<times> 'w"
  dev_disconnect :: "'d \<Rightarrow> 'w \<Rightarrow> unit outcome \<times> 'w"
  dev_getAttendanceData :: "'d \<Rightarrow> jsdate \<Rightarrow> jsdate \<Rightarrow> 'w \<Rightarrow> time_record list outcome \<times> 'w"
  dev_getDeviceInfo :: "'d \<Rightarrow> 'w \<Rightarrow> device_info outcome \<times> 'w"
  db_connect :: "'w \<Rightarrow> unit outcome \<times> 'w"
  db_disconnect :: "'w \<Rightarrow> unit outcome \<times> 'w"
  db_insertTimeRecord :: "time_record \<Rightarrow> 'w \<Rightarrow> unit outcome \<times> 'w"
  db_updateBiometricDevice :: "device_id \<Rightarrow> string \<Rightarrow> 'w \<Rightarrow> unit outcome \<times> 'w"
  clock :: "'w \<Rightarrow> jsdate"
  toISOString :: "jsdate \<Rightarrow> string"
  maxSpread :: nat

text \<open>The message of the \<^verbatim>\<open>RangeError\<close> of a spread that is too long (Node.js).\<close>

definition rangeError :: message where
  "rangeError = ''Maximum call stack size exceeded''"

text \<open>
  Every call to a collaborator is recorded, in order, with the message it rejected with
  (\<open>None\<close> when it resolved). The trace is what an observer of the devices and of the
  database sees of one run.
\<close>

datatype 'd call =
    DevConnect 'd
  | DevGetAttendance 'd
  | DevDisconnect 'd
  | DevGetInfo 'd
  | DbConnect
  | DbDisconnect
  | DbInsert time_record
  | DbUpdate device_id string

type_synonym 'd event = "'d call \<times> message option"

record ('d, 'w) run =
  world :: 'w
  trace :: "'d event list"

definition rejection :: "'a outcome \<Rightarrow> message option" where
  "rejection r = (case r of Inl m \<Rightarrow> Some m | Inr _ \<Rightarrow> None)"

definition perform ::
  "'d call \<Rightarrow> ('w \<Rightarrow> 'a outcome \<times> 'w) \<Rightarrow> ('d, 'w) run \<Rightarrow> 'a outcome \<times> ('d, 'w) run" where
  "perform c f s =
     (case f (world s) of
        (r, w) \<Rightarrow> (r, \<lparr>world = w, trace = trace s @ [(c, rejection r)]\<rparr>))"

text \<open>The events of a run from state \<open>s\<close> to state \<open>s'\<close>.\<close>

definition since :: "('d, 'w) run \<Rightarrow> ('d, 'w) run \<Rightarrow> 'd event list" where
  "since s s' = drop (length (trace s)) (trace s')"

section \<open>\<^verbatim>\<open>BiometricSyncService.syncDeviceData\<close>\<close>

text \<open>
  The loop \<^verbatim>\<open>for (const record of attendanceData)\<close>: the \<^verbatim>\<open>try\<close> around the insert
  catches the rejection, pushes \<^verbatim>\<open>{record, error}\<close> and goes on.
\<close>

fun insertRecords ::
  "('d, 'w) env \<Rightarrow> time_record list \<Rightarrow> device_stats \<Rightarrow> ('d, 'w) run
     \<Rightarrow> device_stats \<times> ('d, 'w) run" where
  "insertRecords env [] ds s = (ds, s)"
| "insertRecords env (r # rs) ds s =
     (case perform (DbInsert r) (db_insertTimeRecord env r) s of
        (Inr _, s1) \<Rightarrow>
          insertRecords env rs (ds\<lparr>insertedRecords := insertedRecords ds + 1\<rparr>) s1
      | (Inl m, s1) \<Rightarrow>
          insertRecords env rs
            (ds\<lparr>errors := errors ds @
               [\<lparr>err_record = Some r, err_deviceId = None, err_error = m,
                 err_type = None\<rparr>]\<rparr>) s1)"

text \<open>
  The \<^verbatim>\<open>catch\<close> block of \<^verbatim>\<open>syncDeviceData\<close>: the device is disconnected, a failure of that
  disconnect is ignored, and the error is thrown again. The entry pushed to the local
  \<^verbatim>\<open>deviceStats.errors\<close> is lost with the local object.
\<close>

definition abortDevice ::
  "('d, 'w) env \<Rightarrow> 'd \<Rightarrow> message \<Rightarrow> ('d, 'w) run \<Rightarrow> device_stats outcome \<times> ('d, 'w) run" where
  "abortDevice env device m s =
     (case perform (DevDisconnect device) (dev_disconnect env device) s of
        (_, s1) \<Rightarrow> (Inl m, s1))"

definition syncDeviceData ::
  "('d, 'w) env \<Rightarrow> 'd \<Rightarrow> jsdate \<Rightarrow> jsdate \<Rightarrow> ('d, 'w) run
     \<Rightarrow> device_stats outcome \<times> ('d, 'w) run" where
  "syncDeviceData env device fromDate toDate s =
     (let stats0 = \<lparr>totalRecords = 0, insertedRecords = 0, errors = [],
                     startTime = Some (clock env (world s)), endTime = None\<rparr>
      in case perform (DevConnect device) (dev_connect env device) s of
           (Inl m, s1) \<Rightarrow> abortDevice env device m s1
         | (Inr _, s1) \<Rightarrow>
             (case perform (DevGetAttendance device)
                     (dev_getAttendanceData env device fromDate toDate) s1 of
                (Inl m, s2) \<Rightarrow> abortDevice env device m s2
              | (Inr attendanceData, s2) \<Rightarrow>
                  (case perform (DevDisconnect device) (dev_disconnect env device) s2 of
                     (Inl m, s3) \<Rightarrow> abortDevice env device m s3
                   | (Inr _, s3) \<Rightarrow>
                       (case insertRecords env attendanceData
                               (stats0\<lparr>totalRecords := length attendanceData\<rparr>) s3 of
                          (ds, s4) \<Rightarrow>
                            (Inr (ds\<lparr>endTime := Some (clock env (world s4))\<rparr>), s4)))))"

section \<open>\<^verbatim>\<open>BiometricDeviceFactory\<close> and \<^verbatim>\<open>BiometricDeviceManager\<close>\<close>

text \<open>
  A device configuration object. A string property is only ever tested for truthiness
  (\<^verbatim>\<open>!config.id\<close>, \<^verbatim>\<open>config.type || ...\<close>), so an absent property and the empty string
  are both the empty string here. \<^verbatim>\<open>enabled\<close> is \<open>None\<close> when the object has no such
  property (configurations read from the environment variables). The numeric
  properties come from \<^verbatim>\<open>parseInt\<close>, whose value is \<^verbatim>\<open>NaN\<close>, an infinity (\<open>True\<close> for the
  negative one; a numeral beyond the range of the doubles), or a finite double that is
  an integer; \<open>Finite 0\<close> stands for both zeros.
\<close>

datatype parsed_int = NaN | Infinity bool | Finite int

record device_config =
  cfg_id :: device_id
  cfg_ip :: string
  cfg_name :: string
  cfg_model :: string
  cfg_port :: parsed_int
  cfg_parser :: string
  cfg_protocol :: string
  cfg_inport :: parsed_int
  cfg_timeout :: parsed_int
  cfg_type :: string
  cfg_enabled :: "bool option"

text \<open>
  The only adapter class of the repository, and the factory. \<^verbatim>\<open>toLowerCase\<close> is
  modelled on ASCII letters.
\<close>

datatype adapter = ZKTecoAdapter device_config

fun adapterConfig :: "adapter \<Rightarrow> device_config" where
  "adapterConfig (ZKTecoAdapter config) = config"

definition lowerChar :: "char \<Rightarrow> char" where
  "lowerChar c =
     (if CHR ''A'' \<le> c \<and> c \<le> CHR ''Z'' then char_of (of_char c + (32::nat)) else c)"

definition toLowerCase :: "string \<Rightarrow> string" where
  "toLowerCase str = map lowerChar str"

definition autoDetectType :: "device_config \<Rightarrow> string" where
  "autoDetectType config = ''zkteco''"

definition create :: "string \<Rightarrow> device_config \<Rightarrow> adapter outcome" where
  "create type config =
     (let t = toLowerCase type in
      if t = ''zkteco'' \<or> t = ''zklib'' then Inr (ZKTecoAdapter config)
      else if t = ''hikvision'' then Inl ''Hikvision adapter not implemented yet''
      else if t = ''suprema'' then Inl ''Suprema adapter not implemented yet''
      else if t = ''fingertec'' then Inl ''FingerTec adapter not implemented yet''
      else Inl (''Unsupported biometric device type: '' @ type))"

text \<open>
  The two \<^verbatim>\<open>Map\<close>s of the manager, in insertion order: \<^verbatim>\<open>Map.set\<close> on a key that is
  present replaces the value in place, on a new key it appends.
\<close>

record manager =
  devices :: "(device_id \<times> adapter) list"
  deviceConfigs :: "(device_id \<times> device_config) list"

definition newManager :: manager where
  "newManager = \<lparr>devices = [], deviceConfigs = []\<rparr>"

definition registerDevice :: "manager \<Rightarrow> device_config \<Rightarrow> unit outcome \<times> manager" where
  "registerDevice m deviceConfig =
     (if cfg_id deviceConfig = [] then (Inl ''Device configuration must have an ID'', m)
      else (Inr (),
            m\<lparr>deviceConfigs := AList.update (cfg_id deviceConfig) deviceConfig (deviceConfigs m)\<rparr>))"

fun registerDevices :: "manager \<Rightarrow> device_config list \<Rightarrow> unit outcome \<times> manager" where
  "registerDevices m [] = (Inr (), m)"
| "registerDevices m (config # rest) =
     (case registerDevice m config of
        (Inl e, m1) \<Rightarrow> (Inl e, m1)
      | (Inr _, m1) \<Rightarrow> registerDevices m1 rest)"

definition notFound :: "device_id \<Rightarrow> message" where
  "notFound deviceId = ''Device configuration not found for ID: '' @ deviceId"

text \<open>
  The adapter that \<^verbatim>\<open>getDevice\<close> builds for a configuration:
  \<^verbatim>\<open>create(config.type || autoDetectType(config), config, logger)\<close>.
\<close>

definition adapterFor :: "device_config \<Rightarrow> adapter outcome" where
  "adapterFor config =
     (let deviceType = (if cfg_type config \<noteq> [] then cfg_type config
                        else autoDetectType config)
      in create deviceType config)"

definition getDevice :: "manager \<Rightarrow> device_id \<Rightarrow> adapter outcome \<times> manager" where
  "getDevice m deviceId =
     (case map_of (devices m) deviceId of
        Some a \<Rightarrow> (Inr a, m)
      | None \<Rightarrow>
          (case map_of (deviceConfigs m) deviceId of
             None \<Rightarrow> (Inl (notFound deviceId), m)
           | Some config \<Rightarrow>
               (case adapterFor config of
                  Inl e \<Rightarrow> (Inl e, m)
                | Inr a \<Rightarrow> (Inr a, m\<lparr>devices := AList.update deviceId a (devices m)\<rparr>))))"

text \<open>
  \<^verbatim>\<open>idsArray.map(id => getDevice(id))\<close> and the loop of \<^verbatim>\<open>getAllDevices\<close>: the first
  \<^verbatim>\<open>getDevice\<close> that throws ends the iteration; the adapters cached before stay cached.
\<close>

fun getDevices :: "manager \<Rightarrow> device_id list \<Rightarrow> adapter list outcome \<times> manager" where
  "getDevices m [] = (Inr [], m)"
| "getDevices m (deviceId # rest) =
     (case getDevice m deviceId of
        (Inl e, m1) \<Rightarrow> (Inl e, m1)
      | (Inr a, m1) \<Rightarrow>
          (case getDevices m1 rest of
             (Inl e, m2) \<Rightarrow> (Inl e, m2)
           | (Inr as, m2) \<Rightarrow> (Inr (a # as), m2)))"

definition getAllDevices :: "manager \<Rightarrow> adapter list outcome \<times> manager" where
  "getAllDevices m = getDevices m (map fst (deviceConfigs m))"

text \<open>
  \<^verbatim>\<open>disconnectAll\<close> calls \<^verbatim>\<open>disconnect()\<close> on every cached adapter, in the order of the
  cache, swallows each rejection, and clears the cache. The source starts all the
  disconnects and awaits them together; here each one ends before the next starts, in
  the order in which the source starts them.
\<close>

fun disconnectEach ::
  "(adapter, 'w) env \<Rightarrow> (device_id \<times> adapter) list \<Rightarrow> (adapter, 'w) run \<Rightarrow> (adapter, 'w) run" where
  "disconnectEach env [] s = s"
| "disconnectEach env ((deviceId, a) # rest) s =
     (case perform (DevDisconnect a) (dev_disconnect env a) s of
        (_, s1) \<Rightarrow> disconnectEach env rest s1)"

definition disconnectAll ::
  "(adapter, 'w) env \<Rightarrow> manager \<Rightarrow> (adapter, 'w) run \<Rightarrow> manager \<times> (adapter, 'w) run" where
  "disconnectAll env m s = (m\<lparr>devices := []\<rparr>, disconnectEach env (devices m) s)"

section \<open>\<^verbatim>\<open>Config.loadDevicesFromFile\<close> and the registration at start-up\<close>

text \<open>
  An entry of the \<^verbatim>\<open>devices\<close> array of \<^verbatim>\<open>devices.json\<close>. String properties are empty when
  absent, as above; \<^verbatim>\<open>enabled\<close> is a JSON boolean or absent. Of a numeric property \<^verbatim>\<open>p\<close>
  the code reads \<^verbatim>\<open>parseInt(device.p)\<close> only, and the record holds that value: how
  \<^verbatim>\<open>parseInt\<close> reads a JSON value (its conversion to a string, exponents, fractions,
  rounding, an absent property) is outside the model.
\<close>

record raw_device =
  raw_id :: string
  raw_ip :: string
  raw_name :: string
  raw_model :: string
  raw_port :: parsed_int
  raw_parser :: string
  raw_pharser :: string
  raw_protocol :: string
  raw_inport :: parsed_int
  raw_timeout :: parsed_int
  raw_type :: string
  raw_enabled :: "bool option"

definition orElse :: "string \<Rightarrow> string \<Rightarrow> string" where
  "orElse a b = (if a \<noteq> [] then a else b)"

text \<open>
  \<^verbatim>\<open>n || d\<close> for the value \<^verbatim>\<open>n\<close> of \<^verbatim>\<open>parseInt\<close>: \<^verbatim>\<open>NaN\<close> and the zeros are falsy, every
  other number is truthy.
\<close>

definition orDefault :: "parsed_int \<Rightarrow> int \<Rightarrow> parsed_int" where
  "orDefault n d = (if n = NaN \<or> n = Finite 0 then Finite d else n)"

fun showNat :: "nat \<Rightarrow> string" where
  "showNat n =
     (if n < 10 then [char_of (48 + n)] else showNat (n div 10) @ [char_of (48 + n mod 10)])"

definition quoted :: "string \<Rightarrow> string" where
  "quoted str = CHR 0x22 # str @ [CHR 0x22]"

definition validateDevice :: "nat \<Rightarrow> raw_device \<Rightarrow> device_config outcome" where
  "validateDevice index device =
     (if raw_id device = [] then
        Inl (''Device at index '' @ showNat index @ '' is missing required '' @ quoted ''id''
               @ '' field'')
      else if raw_ip device = [] then
        Inl (''Device '' @ quoted (raw_id device) @ '' is missing required '' @ quoted ''ip''
               @ '' field'')
      else
        Inr \<lparr>cfg_id = raw_id device,
             cfg_ip = raw_ip device,
             cfg_name = orElse (raw_name device) (raw_id device),
             cfg_model = orElse (raw_model device) ''Unknown'',
             cfg_port = orDefault (raw_port device) 4370,
             cfg_parser = orElse (raw_parser device) (orElse (raw_pharser device) ''v6.60''),
             cfg_protocol = orElse (raw_protocol device) ''udp'',
             cfg_inport = orDefault (raw_inport device) 5200,
             cfg_timeout = orDefault (raw_timeout device) 5000,
             cfg_type = orElse (raw_type device) ''zkteco'',
             cfg_enabled = Some (raw_enabled device \<noteq> Some False)\<rparr>)"

fun validateDevices :: "nat \<Rightarrow> raw_device list \<Rightarrow> device_config list outcome" where
  "validateDevices index [] = Inr []"
| "validateDevices index (device # rest) =
     (case validateDevice index device of
        Inl e \<Rightarrow> Inl e
      | Inr config \<Rightarrow>
          (case validateDevices (index + 1) rest of
             Inl e \<Rightarrow> Inl e
           | Inr configs \<Rightarrow> Inr (config # configs)))"

text \<open>
  The argument is \<^verbatim>\<open>config.devices\<close> of the parsed file, \<open>None\<close> when it is missing or not
  an array. Reading and parsing the file are outside the model.
\<close>

definition loadDevicesFromFile :: "raw_device list option \<Rightarrow> device_config list outcome" where
  "loadDevicesFromFile fileDevices =
     (case fileDevices of
        None \<Rightarrow> Inl (''devices.json file must contain a '' @ quoted ''devices'' @ '' array'')
      | Some ds \<Rightarrow>
          (case validateDevices 0 ds of
             Inl e \<Rightarrow> Inl e
           | Inr validatedDevices \<Rightarrow>
               Inr (filter (\<lambda>device. cfg_enabled device = Some True) validatedDevices)))"

text \<open>
  \<^verbatim>\<open>BiometricUpdaterApp.initialize\<close>, for a configuration that comes from \<^verbatim>\<open>devices.json\<close>:
  the device list of \<^verbatim>\<open>Config\<close> is registered with a new manager.
\<close>

definition initialize :: "raw_device list option \<Rightarrow> manager outcome" where
  "initialize fileDevices =
     (case loadDevicesFromFile fileDevices of
        Inl e \<Rightarrow> Inl (''Failed to load device configurations: '' @ e)
      | Inr configs \<Rightarrow>
          if configs = [] then Inl ''No biometric devices configured''
          else (case registerDevices newManager configs of
                  (Inl e, m) \<Rightarrow> Inl e
                | (Inr _, m) \<Rightarrow> Inr m))"

section \<open>\<^verbatim>\<open>BiometricSyncService\<close>: the passes\<close>

text \<open>
  The \<^verbatim>\<open>catch\<close> block of the device loop of \<^verbatim>\<open>syncMultipleDevices\<close>: one entry
  \<^verbatim>\<open>{deviceId, error, type}\<close> is pushed, and \<^verbatim>\<open>stats.deviceStats[deviceId]\<close> becomes an
  object with zero counters.
\<close>

definition deviceFailed :: "device_id \<Rightarrow> message \<Rightarrow> sync_stats \<Rightarrow> sync_stats" where
  "deviceFailed deviceId m stats =
     stats\<lparr>errors := errors stats @
              [\<lparr>err_record = None, err_deviceId = Some deviceId, err_error = m,
                err_type = Some ''device_sync_error''\<rparr>],
           deviceStats :=
             setProperty deviceId
               \<lparr>totalRecords = 0, insertedRecords = 0,
                errors = [\<lparr>err_record = None, err_deviceId = None, err_error = m,
                           err_type = None\<rparr>],
                startTime = None, endTime = None\<rparr>
               (deviceStats stats)\<rparr>"

text \<open>
  The four statements of the \<^verbatim>\<open>try\<close> block that follow \<^verbatim>\<open>syncDeviceData\<close>. The last one,
  \<^verbatim>\<open>stats.errors.push(...deviceStats.errors)\<close>, throws a \<^verbatim>\<open>RangeError\<close> when the device has
  more error entries than a call can spread; the \<^verbatim>\<open>catch\<close> block then runs on statistics
  to which the counters of the device have already been added.
\<close>

definition deviceSynced ::
  "('d, 'w) env \<Rightarrow> device_id \<Rightarrow> device_stats \<Rightarrow> sync_stats \<Rightarrow> sync_stats" where
  "deviceSynced env deviceId ds stats =
     (let counted =
            stats\<lparr>deviceStats := setProperty deviceId ds (deviceStats stats),
                  totalRecords := totalRecords stats + totalRecords ds,
                  insertedRecords := insertedRecords stats + insertedRecords ds\<rparr>
      in if length (errors ds) \<le> maxSpread env
         then counted\<lparr>errors := errors stats @ errors ds\<rparr>
         else deviceFailed deviceId rangeError counted)"

text \<open>
  The loop \<^verbatim>\<open>for (const device of devicesToSync)\<close> of \<^verbatim>\<open>syncMultipleDevices\<close>.
  \<^verbatim>\<open>getDeviceInfo\<close> is awaited outside the inner \<^verbatim>\<open>try\<close>: its rejection leaves the loop.
\<close>

fun syncDevices ::
  "('d, 'w) env \<Rightarrow> 'd list \<Rightarrow> jsdate \<Rightarrow> jsdate \<Rightarrow> sync_stats \<Rightarrow> ('d, 'w) run
     \<Rightarrow> sync_stats outcome \<times> ('d, 'w) run" where
  "syncDevices env [] fromDate toDate stats s = (Inr stats, s)"
| "syncDevices env (device # rest) fromDate toDate stats s =
     (case perform (DevGetInfo device) (dev_getDeviceInfo env device) s of
        (Inl e, s1) \<Rightarrow> (Inl e, s1)
      | (Inr deviceInfo, s1) \<Rightarrow>
          (let deviceId = info_id deviceInfo
           in case syncDeviceData env device fromDate toDate s1 of
                (Inr ds, s2) \<Rightarrow>
                  syncDevices env rest fromDate toDate (deviceSynced env deviceId ds stats) s2
              | (Inl m, s2) \<Rightarrow>
                  syncDevices env rest fromDate toDate (deviceFailed deviceId m stats) s2))"

text \<open>\<^verbatim>\<open>new Date().toISOString().slice(0, 19).replace('T', ' ')\<close>\<close>

fun replaceFirst :: "char \<Rightarrow> char \<Rightarrow> string \<Rightarrow> string" where
  "replaceFirst a b [] = []"
| "replaceFirst a b (c # cs) = (if c = a then b # cs else c # replaceFirst a b cs)"

definition syncTimestamp :: "('d, 'w) env \<Rightarrow> 'w \<Rightarrow> string" where
  "syncTimestamp env w =
     replaceFirst (CHR ''T'') (CHR '' '') (take 19 (toISOString env (clock env w)))"

text \<open>
  The loop of \<^verbatim>\<open>updateAllDevicesLastSync\<close>. Its \<^verbatim>\<open>catch\<close> block evaluates the template
  literal \<^verbatim>\<open>${deviceInfo?.id}\<close>, but \<^verbatim>\<open>deviceInfo\<close> is a \<^verbatim>\<open>const\<close> of the \<^verbatim>\<open>try\<close> block and
  is not in scope in the \<^verbatim>\<open>catch\<close> block, nor anywhere around it. Reading an undeclared
  identifier throws a \<^verbatim>\<open>ReferenceError\<close> (optional chaining guards the property access,
  not the lookup of the identifier), before \<^verbatim>\<open>logger.error\<close> is called. So a rejection of
  \<^verbatim>\<open>getDeviceInfo\<close> or of \<^verbatim>\<open>updateBiometricDevice\<close> ends the loop with that
  \<^verbatim>\<open>ReferenceError\<close>.
\<close>

definition referenceError :: message where
  "referenceError = ''deviceInfo is not defined''"

fun updateEach ::
  "('d, 'w) env \<Rightarrow> string \<Rightarrow> 'd list \<Rightarrow> ('d, 'w) run \<Rightarrow> unit outcome \<times> ('d, 'w) run" where
  "updateEach env timestamp [] s = (Inr (), s)"
| "updateEach env timestamp (device # rest) s =
     (case perform (DevGetInfo device) (dev_getDeviceInfo env device) s of
        (Inl e, s1) \<Rightarrow> (Inl referenceError, s1)
      | (Inr deviceInfo, s1) \<Rightarrow>
          (case perform (DbUpdate (info_id deviceInfo) timestamp)
                  (db_updateBiometricDevice env (info_id deviceInfo) timestamp) s1 of
             (Inl e, s2) \<Rightarrow> (Inl referenceError, s2)
           | (Inr _, s2) \<Rightarrow> updateEach env timestamp rest s2))"

definition updateAllDevicesLastSync ::
  "('d, 'w) env \<Rightarrow> 'd list \<Rightarrow> ('d, 'w) run \<Rightarrow> unit outcome \<times> ('d, 'w) run" where
  "updateAllDevicesLastSync env devs s = updateEach env (syncTimestamp env (world s)) devs s"

definition updateDeviceLastSync ::
  "('d, 'w) env \<Rightarrow> 'd \<Rightarrow> ('d, 'w) run \<Rightarrow> unit outcome \<times> ('d, 'w) run" where
  "updateDeviceLastSync env device s =
     (let timestamp = syncTimestamp env (world s)
      in case perform (DevGetInfo device) (dev_getDeviceInfo env device) s of
           (Inl e, s1) \<Rightarrow> (Inl e, s1)
         | (Inr deviceInfo, s1) \<Rightarrow>
             perform (DbUpdate (info_id deviceInfo) timestamp)
               (db_updateBiometricDevice env (info_id deviceInfo) timestamp) s1)"

text \<open>\<^verbatim>\<open>cleanupConnections\<close>, with a manager and with a single device.\<close>

definition cleanupConnections ::
  "(adapter, 'w) env \<Rightarrow> manager \<Rightarrow> (adapter, 'w) run \<Rightarrow> manager \<times> (adapter, 'w) run" where
  "cleanupConnections env m s =
     (case disconnectAll env m s of
        (m1, s1) \<Rightarrow>
          (case perform DbDisconnect (db_disconnect env) s1 of
             (_, s2) \<Rightarrow> (m1, s2)))"

definition cleanupConnectionsSingle ::
  "('d, 'w) env \<Rightarrow> 'd \<Rightarrow> ('d, 'w) run \<Rightarrow> ('d, 'w) run" where
  "cleanupConnectionsSingle env device s =
     (case perform (DevDisconnect device) (dev_disconnect env device) s of
        (_, s1) \<Rightarrow>
          (case perform DbDisconnect (db_disconnect env) s1 of
             (_, s2) \<Rightarrow> s2))"

text \<open>
  The \<^verbatim>\<open>deviceIds\<close> argument: \<^verbatim>\<open>null\<close> (the default), one id, or an array of ids. An empty
  string is falsy, an array is always truthy.
\<close>

datatype device_ids = NoIds | OneId device_id | IdArray "device_id list"

fun given :: "device_ids \<Rightarrow> bool" where
  "given NoIds = False"
| "given (OneId deviceId) = (deviceId \<noteq> [])"
| "given (IdArray ids) = True"

fun idsArray :: "device_ids \<Rightarrow> device_id list" where
  "idsArray NoIds = []"
| "idsArray (OneId deviceId) = [deviceId]"
| "idsArray (IdArray ids) = ids"

definition resolveDevices :: "manager \<Rightarrow> device_ids \<Rightarrow> adapter list outcome \<times> manager" where
  "resolveDevices m deviceIds =
     (if given deviceIds then getDevices m (idsArray deviceIds) else getAllDevices m)"

definition emptyStats :: "jsdate \<Rightarrow> sync_stats" where
  "emptyStats now =
     \<lparr>totalRecords = 0, insertedRecords = 0, errors = [], startTime = Some now,
      endTime = None, deviceStats = emptyObject\<rparr>"

text \<open>
  The part of \<^verbatim>\<open>syncMultipleDevices\<close> that follows the resolution of the device set,
  inside the \<^verbatim>\<open>try\<close>: connect the database, run the device loop, update the
  checkpoints when something was inserted, disconnect the database.
\<close>

definition syncPass ::
  "('d, 'w) env \<Rightarrow> 'd list \<Rightarrow> jsdate \<Rightarrow> jsdate \<Rightarrow> sync_stats \<Rightarrow> ('d, 'w) run
     \<Rightarrow> sync_stats outcome \<times> ('d, 'w) run" where
  "syncPass env devicesToSync fromDate toDate stats s =
     (case perform DbConnect (db_connect env) s of
        (Inl e, s1) \<Rightarrow> (Inl e, s1)
      | (Inr _, s1) \<Rightarrow>
          (case syncDevices env devicesToSync fromDate toDate stats s1 of
             (Inl e, s2) \<Rightarrow> (Inl e, s2)
           | (Inr stats2, s2) \<Rightarrow>
               (case (if insertedRecords stats2 > 0
                      then updateAllDevicesLastSync env devicesToSync s2
                      else (Inr (), s2)) of
                  (Inl e, s3) \<Rightarrow> (Inl e, s3)
                | (Inr _, s3) \<Rightarrow>
                    (case perform DbDisconnect (db_disconnect env) s3 of
                       (Inl e, s4) \<Rightarrow> (Inl e, s4)
                     | (Inr _, s4) \<Rightarrow>
                         (Inr (stats2\<lparr>endTime := Some (clock env (world s4))\<rparr>), s4)))))"

text \<open>
  \<^verbatim>\<open>syncMultipleDevices\<close>. The outer \<^verbatim>\<open>catch\<close> cleans up and throws the error again; the
  \<^verbatim>\<open>general_error\<close> entry it pushes goes to the local \<^verbatim>\<open>stats\<close>, which the caller never
  sees. The manager is returned with the result, since the pass creates and drops
  cached adapters.
\<close>

definition syncMultipleDevices ::
  "(adapter, 'w) env \<Rightarrow> manager \<Rightarrow> jsdate \<Rightarrow> jsdate \<Rightarrow> device_ids \<Rightarrow> (adapter, 'w) run
     \<Rightarrow> sync_stats outcome \<times> manager \<times> (adapter, 'w) run" where
  "syncMultipleDevices env m fromDate toDate deviceIds s =
     (let stats = emptyStats (clock env (world s))
      in case resolveDevices m deviceIds of
           (Inl e, m1) \<Rightarrow>
             (case cleanupConnections env m1 s of (m2, s') \<Rightarrow> (Inl e, m2, s'))
         | (Inr devicesToSync, m1) \<Rightarrow>
             (case syncPass env devicesToSync fromDate toDate stats s of
                (Inl e, s1) \<Rightarrow>
                  (case cleanupConnections env m1 s1 of (m2, s') \<Rightarrow> (Inl e, m2, s'))
              | (Inr result, s1) \<Rightarrow> (Inr result, m1, s1)))"

text \<open>
  \<^verbatim>\<open>syncSingleDevice\<close>: \<^verbatim>\<open>syncDeviceData\<close>, which writes the records, is awaited before
  \<^verbatim>\<open>databaseAdapter.connect()\<close>.
\<close>

definition syncSingleDevice ::
  "('d, 'w) env \<Rightarrow> 'd \<Rightarrow> jsdate \<Rightarrow> jsdate \<Rightarrow> ('d, 'w) run
     \<Rightarrow> device_stats outcome \<times> ('d, 'w) run" where
  "syncSingleDevice env device fromDate toDate s =
     (case syncDeviceData env device fromDate toDate s of
        (Inl e, s1) \<Rightarrow> (Inl e, cleanupConnectionsSingle env device s1)
      | (Inr ds, s1) \<Rightarrow>
          (case perform DbConnect (db_connect env) s1 of
             (Inl e, s2) \<Rightarrow> (Inl e, cleanupConnectionsSingle env device s2)
           | (Inr _, s2) \<Rightarrow>
               (case (if insertedRecords ds > 0
                      then updateDeviceLastSync env device s2
                      else (Inr (), s2)) of
                  (Inl e, s3) \<Rightarrow> (Inl e, cleanupConnectionsSingle env device s3)
                | (Inr _, s3) \<Rightarrow>
                    (case perform DbDisconnect (db_disconnect env) s3 of
                       (Inl e, s4) \<Rightarrow> (Inl e, cleanupConnectionsSingle env device s4)
                     | (Inr _, s4) \<Rightarrow>
                         (Inr (ds\<lparr>endTime := Some (clock env (world s4))\<rparr>), s4)))))"

text \<open>
  \<^verbatim>\<open>syncAttendanceData\<close>: the constructor argument is a manager when it has a
  \<^verbatim>\<open>getAllDevices\<close> method, and a single device otherwise.
\<close>

datatype source = Manager manager | SingleDevice adapter

datatype sync_result = MultiResult sync_stats | SingleResult device_stats

definition syncAttendanceData ::
  "(adapter, 'w) env \<Rightarrow> source \<Rightarrow> jsdate \<Rightarrow> jsdate \<Rightarrow> device_ids \<Rightarrow> (adapter, 'w) run
     \<Rightarrow> sync_result outcome \<times> source \<times> (adapter, 'w) run" where
  "syncAttendanceData env src fromDate toDate deviceIds s =
     (case src of
        Manager m \<Rightarrow>
          (case syncMultipleDevices env m fromDate toDate deviceIds s of
             (Inl e, m', s') \<Rightarrow> (Inl e, Manager m', s')
           | (Inr stats, m', s') \<Rightarrow> (Inr (MultiResult stats), Manager m', s'))
      | SingleDevice device \<Rightarrow>
          (case syncSingleDevice env device fromDate toDate s of
             (Inl e, s') \<Rightarrow> (Inl e, SingleDevice device, s')
           | (Inr ds, s') \<Rightarrow> (Inr (SingleResult ds), SingleDevice device, s')))"

section \<open>\<^verbatim>\<open>ZKTecoAdapter.getAttendanceData\<close>: formatting and the window filter\<close>

text \<open>
  A log entry as the device library reports it; \<^verbatim>\<open>verifyMode\<close> may be missing. The two
  formats of the \<^verbatim>\<open>moment\<close> library that the adapter uses are parameters.
\<close>

record raw_log =
  uid :: string
  timestamp :: jsdate
  inOutStatus :: int
  log_verifyMode :: "int option"

record moment =
  formatDateTime :: "jsdate \<Rightarrow> string"
  formatDate :: "jsdate \<Rightarrow> string"

definition formatLog :: "moment \<Rightarrow> device_config \<Rightarrow> raw_log \<Rightarrow> time_record" where
  "formatLog mo config log =
     \<lparr>employeeNumber = uid log,
      timeRecord = formatDateTime mo (timestamp log),
      inOutMode = inOutStatus log,
      verifyMode = (case log_verifyMode log of None \<Rightarrow> 1 | Some v \<Rightarrow> if v = 0 then 1 else v),
      ipAddress = cfg_ip config,
      location = cfg_name config\<rparr>"

text \<open>\<^verbatim>\<open>record.timeRecord.split(' ')[0]\<close>: the text before the first space.\<close>

definition recordDate :: "time_record \<Rightarrow> string" where
  "recordDate r = takeWhile (\<lambda>c. c \<noteq> CHR '' '') (timeRecord r)"

text \<open>
  The body of the \<^verbatim>\<open>getAttendance\<close> callback on success. \<^verbatim>\<open>>=\<close> and \<^verbatim>\<open><=\<close> on strings
  compare code units lexicographically, which on the ASCII text of a formatted date
  is the lexicographic order on \<open>char list\<close>. A \<^verbatim>\<open>null\<close> bound (\<open>None\<close>) switches the
  filter off.
\<close>

definition getAttendanceData ::
  "moment \<Rightarrow> device_config \<Rightarrow> jsdate option \<Rightarrow> jsdate option \<Rightarrow> raw_log list
     \<Rightarrow> time_record list" where
  "getAttendanceData mo config fromDate toDate data =
     (let formattedLogs = map (formatLog mo config) data
      in case (fromDate, toDate) of
           (Some f, Some t) \<Rightarrow>
             (let fromDateStr = formatDate mo f; toDateStr = formatDate mo t
              in filter (\<lambda>r. recordDate r \<ge> fromDateStr \<and> recordDate r \<le> toDateStr)
                   formattedLogs)
         | _ \<Rightarrow> formattedLogs)"

section \<open>Observations on a trace\<close>

text \<open>
  The records whose write was attempted, the writes that were rejected (with the
  message) and the writes that succeeded, each in the order of the calls.
\<close>

fun writes :: "'d event list \<Rightarrow> time_record list" where
  "writes [] = []"
| "writes ((DbInsert r, _) # tr) = r # writes tr"
| "writes (_ # tr) = writes tr"

fun failedWrites :: "'d event list \<Rightarrow> (time_record \<times> message) list" where
  "failedWrites [] = []"
| "failedWrites ((DbInsert r, Some m) # tr) = (r, m) # failedWrites tr"
| "failedWrites (_ # tr) = failedWrites tr"

fun okWrites :: "'d event list \<Rightarrow> time_record list" where
  "okWrites [] = []"
| "okWrites ((DbInsert r, None) # tr) = r # okWrites tr"
| "okWrites (_ # tr) = okWrites tr"

text \<open>The devices on which \<^verbatim>\<open>connect()\<close> was called, in the order of the calls.\<close>

fun connects :: "'d event list \<Rightarrow> 'd list" where
  "connects [] = []"
| "connects ((DevConnect d, _) # tr) = d # connects tr"
| "connects (_ # tr) = connects tr"

text \<open>The checkpoint updates that were attempted, with their outcome, in call order.\<close>

fun updates :: "'d event list \<Rightarrow> (device_id \<times> message option) list" where
  "updates [] = []"
| "updates ((DbUpdate deviceId ts, r) # tr) = (deviceId, r) # updates tr"
| "updates (_ # tr) = updates tr"

section \<open>Notions used in the statements\<close>

text \<open>
  The sums of the per-device counters over the entries of the \<^verbatim>\<open>deviceStats\<close> object
  (\<^verbatim>\<open>Object.values\<close>), and its keys (\<^verbatim>\<open>Object.keys\<close>).
\<close>

definition sumTotal :: "device_stats js_object \<Rightarrow> nat" where
  "sumTotal table = sum_list (map (totalRecords \<circ> snd) (obj_own table))"


definition ownKeys :: "'v js_object \<Rightarrow> string list" where
  "ownKeys obj = map fst (obj_own obj)"

text \<open>
  Every configuration is stored under its own id, and every cached adapter was built
  from the configuration of its key.
\<close>

definition keyed :: "manager \<Rightarrow> bool" where
  "keyed m \<longleftrightarrow>
     (\<forall>(k, c) \<in> set (deviceConfigs m). cfg_id c = k) \<and>
     (\<forall>(k, a) \<in> set (devices m). cfg_id (adapterConfig a) = k)"

section \<open>Concrete collaborators\<close>

text \<open>
  Scripted collaborators, for the concrete runs below. The state of the world is the
  number of writes attempted so far: the \<open>k\<close>-th write of record \<open>r\<close> is rejected
  when \<open>sc_insert k r\<close> gives a message. Device disconnects and the database
  connection always succeed. A call spreads up to 65535 arguments.
\<close>

record 'd script =
  sc_info :: "'d \<Rightarrow> device_info outcome"
  sc_connect :: "'d \<Rightarrow> message option"
  sc_attendance :: "'d \<Rightarrow> time_record list outcome"
  sc_insert :: "nat \<Rightarrow> time_record \<Rightarrow> message option"
  sc_update :: "device_id \<Rightarrow> message option"

definition orFail :: "message option \<Rightarrow> unit outcome" where
  "orFail e = (case e of None \<Rightarrow> Inr () | Some m \<Rightarrow> Inl m)"

definition scriptedEnv :: "'d script \<Rightarrow> ('d, nat) env" where
  "scriptedEnv sc =
     \<lparr>dev_connect = (\<lambda>d w. (orFail (sc_connect sc d), w)),
      dev_disconnect = (\<lambda>d w. (Inr (), w)),
      dev_getAttendanceData = (\<lambda>d f t w. (sc_attendance sc d, w)),
      dev_getDeviceInfo = (\<lambda>d w. (sc_info sc d, w)),
      db_connect = (\<lambda>w. (Inr (), w)),
      db_disconnect = (\<lambda>w. (Inr (), w)),
      db_insertTimeRecord = (\<lambda>r w. (orFail (sc_insert sc (w + 1) r), w + 1)),
      db_updateBiometricDevice = (\<lambda>i t w. (orFail (sc_update sc i), w)),
      clock = (\<lambda>w. JSDate (int w)),
      toISOString = (\<lambda>d. ''2024-01-16T02:00:00.000Z''),
      maxSpread = 65535\<rparr>"

text \<open>
  \<^verbatim>\<open>FirebirdAdapter\<close> in front of a database that accepts every connection and every
  statement, with ZKTeco devices that always connect and report the given records. The
  state of the world is whether \<^verbatim>\<open>this.connection\<close> of the adapter is set:
  \<^verbatim>\<open>connect\<close> sets it, \<^verbatim>\<open>disconnect\<close> clears it, and \<^verbatim>\<open>executeQuery\<close>, through which
  \<^verbatim>\<open>insertTimeRecord\<close> and \<^verbatim>\<open>updateBiometricDevice\<close> go, rejects with
  \<^verbatim>\<open>Database not connected\<close> when it is not set. \<^verbatim>\<open>getDeviceInfo\<close> of the ZKTeco adapter
  resolves with the id and name of its configuration. A call spreads up to 65535
  arguments.
\<close>

definition configInfo :: "adapter \<Rightarrow> device_info" where
  "configInfo a = \<lparr>info_id = cfg_id (adapterConfig a), info_name = cfg_name (adapterConfig a)\<rparr>"

definition executeQuery :: "bool \<Rightarrow> unit outcome" where
  "executeQuery connection = (if connection then Inr () else Inl ''Database not connected'')"

definition firebirdEnv :: "(adapter \<Rightarrow> time_record list) \<Rightarrow> (adapter, bool) env" where
  "firebirdEnv logs =
     \<lparr>dev_connect = (\<lambda>d w. (Inr (), w)),
      dev_disconnect = (\<lambda>d w. (Inr (), w)),
      dev_getAttendanceData = (\<lambda>d f t w. (Inr (logs d), w)),
      dev_getDeviceInfo = (\<lambda>d w. (Inr (configInfo d), w)),
      db_connect = (\<lambda>w. (Inr (), True)),
      db_disconnect = (\<lambda>w. (Inr (), False)),
      db_insertTimeRecord = (\<lambda>r w. (executeQuery w, w)),
      db_updateBiometricDevice = (\<lambda>i t w. (executeQuery w, w)),
      clock = (\<lambda>w. JSDate 0),
      toISOString = (\<lambda>d. ''2024-01-16T02:00:00.000Z''),
      maxSpread = 65535\<rparr>"

text \<open>A run starts with an empty trace.\<close>

definition start :: "'w \<Rightarrow> ('d, 'w) run" where
  "start w = \<lparr>world = w, trace = []\<rparr>"

section \<open>Sample data\<close>

definition punch :: "string \<Rightarrow> string \<Rightarrow> time_record" where
  "punch emp ts =
     \<lparr>employeeNumber = emp, timeRecord = ts, inOutMode = 0, verifyMode = 1,
      ipAddress = ''192.168.1.100'', location = ''Main Office''\<rparr>"

definition threeRecords :: "time_record list" where
  "threeRecords =
     [punch ''101'' ''2024-01-15 08:00:00'', punch ''102'' ''2024-01-15 08:01:00'',
      punch ''103'' ''2024-01-15 08:02:00'']"

definition fiveRecords :: "time_record list" where
  "fiveRecords =
     [punch ''101'' ''2024-01-15 08:00:00'', punch ''102'' ''2024-01-15 08:01:00'',
      punch ''103'' ''2024-01-15 08:02:00'', punch ''104'' ''2024-01-15 08:03:00'',
      punch ''105'' ''2024-01-15 08:04:00'']"

definition noLogs :: "adapter \<Rightarrow> time_record list" where
  "noLogs a = []"

definition threeLogs :: "adapter \<Rightarrow> time_record list" where
  "threeLogs a = threeRecords"

text \<open>
  A configuration as \<^verbatim>\<open>loadDevicesFromFile\<close> completes it from an entry of
  \<^verbatim>\<open>devices.json\<close> that gives an id, an ip and possibly \<^verbatim>\<open>enabled\<close>, and such an entry.
\<close>

definition sampleConfig :: "device_id \<Rightarrow> string \<Rightarrow> device_config" where
  "sampleConfig deviceId type =
     \<lparr>cfg_id = deviceId, cfg_ip = ''192.168.1.100'', cfg_name = deviceId,
      cfg_model = ''Unknown'', cfg_port = Finite 4370, cfg_parser = ''v6.60'',
      cfg_protocol = ''udp'', cfg_inport = Finite 5200, cfg_timeout = Finite 5000,
      cfg_type = type,
      cfg_enabled = Some True\<rparr>"

definition sampleRaw :: "device_id \<Rightarrow> bool option \<Rightarrow> raw_device" where
  "sampleRaw deviceId en =
     \<lparr>raw_id = deviceId, raw_ip = ''192.168.1.100'', raw_name = [], raw_model = [],
      raw_port = NaN, raw_parser = [], raw_pharser = [], raw_protocol = [],
      raw_inport = NaN, raw_timeout = NaN, raw_type = [], raw_enabled = en\<rparr>"

text \<open>
  A manager with one registered ZKTeco device, \<^verbatim>\<open>D1\<close>, and nothing cached; it is what
  start-up builds from a \<^verbatim>\<open>devices.json\<close> that lists \<^verbatim>\<open>D1\<close> and a disabled \<^verbatim>\<open>D2\<close>.
\<close>

definition oneDeviceManager :: manager where
  "oneDeviceManager =
     \<lparr>devices = [], deviceConfigs = [(''D1'', sampleConfig ''D1'' ''zkteco'')]\<rparr>"

definition deviceD1 :: adapter where
  "deviceD1 = ZKTecoAdapter (sampleConfig ''D1'' ''zkteco'')"

text \<open>A manager with two registered devices, \<^verbatim>\<open>A\<close> and \<^verbatim>\<open>B\<close>, and their adapters.\<close>

definition twoDeviceManager :: manager where
  "twoDeviceManager =
     \<lparr>devices = [],
      deviceConfigs = [(''A'', sampleConfig ''A'' ''zkteco''), (''B'', sampleConfig ''B'' ''zkteco'')]\<rparr>"

definition deviceA :: adapter where
  "deviceA = ZKTecoAdapter (sampleConfig ''A'' ''zkteco'')"

definition deviceB :: adapter where
  "deviceB = ZKTecoAdapter (sampleConfig ''B'' ''zkteco'')"

text \<open>A manager with three registered devices, \<^verbatim>\<open>A\<close>, \<^verbatim>\<open>B\<close> and \<^verbatim>\<open>C\<close>.\<close>

definition deviceC :: adapter where
  "deviceC = ZKTecoAdapter (sampleConfig ''C'' ''zkteco'')"

definition threeDeviceManager :: manager where
  "threeDeviceManager =
     \<lparr>devices = [],
      deviceConfigs = [(''A'', sampleConfig ''A'' ''zkteco''), (''B'', sampleConfig ''B'' ''zkteco''),
                       (''C'', sampleConfig ''C'' ''zkteco'')]\<rparr>"

text \<open>A manager whose devices have the ids \<^verbatim>\<open>2\<close>, \<^verbatim>\<open>__proto__\<close> and \<^verbatim>\<open>1\<close>.\<close>

definition oddKeysManager :: manager where
  "oddKeysManager =
     \<lparr>devices = [],
      deviceConfigs = [(''2'', sampleConfig ''2'' ''zkteco''),
                       (''__proto__'', sampleConfig ''__proto__'' ''zkteco''),
                       (''1'', sampleConfig ''1'' ''zkteco'')]\<rparr>"

text \<open>One device reporting five records; the third write is rejected.\<close>

definition thirdWriteFails :: "string script" where
  "thirdWriteFails =
     \<lparr>sc_info = (\<lambda>d. Inr \<lparr>info_id = d, info_name = d\<rparr>),
      sc_connect = (\<lambda>d. None),
      sc_attendance = (\<lambda>d. Inr fiveRecords),
      sc_insert = (\<lambda>k r. if k = 3 then Some ''write failed'' else None),
      sc_update = (\<lambda>i. None)\<rparr>"

text \<open>
  Four scripts for ZKTeco devices that report three records each: everything works;
  \<^verbatim>\<open>A\<close> cannot be reached; the checkpoint update of \<^verbatim>\<open>A\<close> is rejected; \<^verbatim>\<open>getDeviceInfo\<close> of
  \<^verbatim>\<open>A\<close> rejects, as the method of the \<^verbatim>\<open>IBiometricDevice\<close> base class does.
\<close>

definition allWell :: "adapter script" where
  "allWell =
     \<lparr>sc_info = (\<lambda>a. Inr (configInfo a)),
      sc_connect = (\<lambda>a. None),
      sc_attendance = (\<lambda>a. Inr threeRecords),
      sc_insert = (\<lambda>k r. None),
      sc_update = (\<lambda>i. None)\<rparr>"

definition deviceADown :: "adapter script" where
  "deviceADown =
     \<lparr>sc_info = (\<lambda>a. Inr (configInfo a)),
      sc_connect = (\<lambda>a. if a = deviceA then Some ''connect timeout'' else None),
      sc_attendance = (\<lambda>a. Inr threeRecords),
      sc_insert = (\<lambda>k r. None),
      sc_update = (\<lambda>i. None)\<rparr>"

definition checkpointARejected :: "adapter script" where
  "checkpointARejected =
     \<lparr>sc_info = (\<lambda>a. Inr (configInfo a)),
      sc_connect = (\<lambda>a. None),
      sc_attendance = (\<lambda>a. Inr threeRecords),
      sc_insert = (\<lambda>k r. None),
      sc_update = (\<lambda>i. if i = ''A'' then Some ''deadlock'' else None)\<rparr>"

definition infoARejected :: "adapter script" where
  "infoARejected =
     \<lparr>sc_info = (\<lambda>a. if a = deviceA then Inl ''getDeviceInfo() method must be implemented''
                      else Inr (configInfo a)),
      sc_connect = (\<lambda>a. None),
      sc_attendance = (\<lambda>a. Inr threeRecords),
      sc_insert = (\<lambda>k r. None),
      sc_update = (\<lambda>i. None)\<rparr>"

text \<open>Every write is rejected.\<close>

definition everyWriteFails :: "adapter script" where
  "everyWriteFails =
     \<lparr>sc_info = (\<lambda>a. Inr (configInfo a)),
      sc_connect = (\<lambda>a. None),
      sc_attendance = (\<lambda>a. Inr threeRecords),
      sc_insert = (\<lambda>k r. Some ''write failed''),
      sc_update = (\<lambda>i. None)\<rparr>"

text \<open>\<^verbatim>\<open>A\<close> cannot be reached, and \<^verbatim>\<open>getDeviceInfo\<close> of \<^verbatim>\<open>B\<close> rejects.\<close>

definition downThenInfoRejected :: "adapter script" where
  "downThenInfoRejected =
     \<lparr>sc_info = (\<lambda>a. if a = deviceB then Inl ''getDeviceInfo() method must be implemented''
                      else Inr (configInfo a)),
      sc_connect = (\<lambda>a. if a = deviceA then Some ''connect timeout'' else None),
      sc_attendance = (\<lambda>a. Inr threeRecords),
      sc_insert = (\<lambda>k r. None),
      sc_update = (\<lambda>i. None)\<rparr>"


text \<open>
  The two formats of \<^verbatim>\<open>moment\<close> on four instants around 15 January 2024 (local time),
  and a device log entry at each.
\<close>

definition sampleDateTime :: "jsdate \<Rightarrow> string" where
  "sampleDateTime d =
     (case d of JSDate n \<Rightarrow>
        if n = 1 then ''2024-01-14 23:59:59''
        else if n = 2 then ''2024-01-15 00:00:00''
        else if n = 3 then ''2024-01-15 23:59:59''
        else ''2024-01-16 00:00:00'')"

definition sampleMoment :: moment where
  "sampleMoment =
     \<lparr>formatDateTime = sampleDateTime, formatDate = (\<lambda>d. take 10 (sampleDateTime d))\<rparr>"

definition sampleLog :: "int \<Rightarrow> raw_log" where
  "sampleLog n = \<lparr>uid = ''7'', timestamp = JSDate n, inOutStatus = 0, log_verifyMode = None\<rparr>"

section \<open>Properties of the record loop\<close>

lemma perform_trace:
  "perform c f s = (r, s') \<Longrightarrow> trace s' = trace s @ [(c, rejection r)]"
  by (auto simp: perform_def split: prod.splits)

lemma since_append: "trace s' = trace s @ tr \<Longrightarrow> since s s' = tr"
  by (simp add: since_def)

lemma since_extends: "trace s' = trace s @ tr \<Longrightarrow> trace s' = trace s @ since s s'"
  by (simp add: since_def)

lemma writes_append: "writes (xs @ ys) = writes xs @ writes ys"
  by (induction xs rule: writes.induct) simp_all


lemma okWrites_append: "okWrites (xs @ ys) = okWrites xs @ okWrites ys"
  by (induction xs rule: okWrites.induct) simp_all

lemma writes_partition: "length (writes tr) = length (okWrites tr) + length (failedWrites tr)"
proof (induction tr)
  case Nil
  then show ?case by simp
next
  case (Cons e tr)
  obtain c r where e: "e = (c, r)" by (cases e)
  from Cons show ?case unfolding e by (cases c; cases r) simp_all
qed

lemma insertRecords_run:
  "insertRecords env rs ds s = (ds', s') \<Longrightarrow>
     \<exists>tr. trace s' = trace s @ tr \<and>
          map fst tr = map DbInsert rs \<and>
          writes tr = rs \<and>
          totalRecords ds' = totalRecords ds \<and>
          insertedRecords ds' = insertedRecords ds + length (okWrites tr) \<and>
          errors ds' = errors ds @
            map (\<lambda>(r, m). \<lparr>err_record = Some r, err_deviceId = None, err_error = m,
                            err_type = None\<rparr>) (failedWrites tr) \<and>
          startTime ds' = startTime ds \<and> endTime ds' = endTime ds"
proof (induction rs arbitrary: ds s)
  case Nil
  then show ?case by simp
next
  case (Cons r rs)
  obtain res s1 where p: "perform (DbInsert r) (db_insertTimeRecord env r) s = (res, s1)"
    by (cases "perform (DbInsert r) (db_insertTimeRecord env r) s")
  have t1: "trace s1 = trace s @ [(DbInsert r, rejection res)]"
    using p by (rule perform_trace)
  show ?case
  proof (cases res)
    case (Inl m)
    with Cons.prems p
    have "insertRecords env rs
            (ds\<lparr>errors := errors ds @
               [\<lparr>err_record = Some r, err_deviceId = None, err_error = m,
                 err_type = None\<rparr>]\<rparr>) s1 = (ds', s')"
      by simp
    from Cons.IH [OF this] obtain tr where
      "trace s' = trace s1 @ tr" "map fst tr = map DbInsert rs" "writes tr = rs"
      "totalRecords ds' = totalRecords ds"
      "insertedRecords ds' = insertedRecords ds + length (okWrites tr)"
      "errors ds' =
         (errors ds @
            [\<lparr>err_record = Some r, err_deviceId = None, err_error = m, err_type = None\<rparr>]) @
         map (\<lambda>(r, m). \<lparr>err_record = Some r, err_deviceId = None, err_error = m,
                         err_type = None\<rparr>) (failedWrites tr)"
      "startTime ds' = startTime ds" "endTime ds' = endTime ds"
      by auto
    with t1 Inl show ?thesis
      by (intro exI [of _ "(DbInsert r, Some m) # tr"]) (simp add: rejection_def)
  next
    case (Inr u)
    with Cons.prems p
    have "insertRecords env rs (ds\<lparr>insertedRecords := insertedRecords ds + 1\<rparr>) s1 = (ds', s')"
      by simp
    from Cons.IH [OF this] obtain tr where
      "trace s' = trace s1 @ tr" "map fst tr = map DbInsert rs" "writes tr = rs"
      "totalRecords ds' = totalRecords ds"
      "insertedRecords ds' = insertedRecords ds + 1 + length (okWrites tr)"
      "errors ds' = errors ds @
         map (\<lambda>(r, m). \<lparr>err_record = Some r, err_deviceId = None, err_error = m,
                         err_type = None\<rparr>) (failedWrites tr)"
      "startTime ds' = startTime ds" "endTime ds' = endTime ds"
      by auto
    with t1 Inr show ?thesis
      by (intro exI [of _ "(DbInsert r, None) # tr"]) (simp add: rejection_def)
  qed
qed

text \<open>
  A run of \<^verbatim>\<open>syncDeviceData\<close> that gets past the retrieval: the three device calls, then
  one write per retrieved record.
\<close>

lemma syncDeviceData_retrieved:
  assumes c: "perform (DevConnect device) (dev_connect env device) s = (Inr u1, s1)"
      and g: "perform (DevGetAttendance device)
                (dev_getAttendanceData env device fromDate toDate) s1 = (Inr rs, s2)"
      and d: "perform (DevDisconnect device) (dev_disconnect env device) s2 = (Inr u2, s3)"
      and run: "syncDeviceData env device fromDate toDate s = (res, s')"
  shows "\<exists>ds tr. res = Inr ds \<and>
           trace s' = trace s3 @ tr \<and>
           map fst tr = map DbInsert rs \<and>
           totalRecords ds = length rs \<and>
           insertedRecords ds = length (okWrites tr) \<and>
           errors ds =
             map (\<lambda>(r, m). \<lparr>err_record = Some r, err_deviceId = None, err_error = m,
                             err_type = None\<rparr>) (failedWrites tr) \<and>
           insertedRecords ds + length (errors ds) = totalRecords ds"
proof -
  let ?st = "\<lparr>totalRecords = length rs, insertedRecords = 0, errors = [],
              startTime = Some (clock env (world s)), endTime = None\<rparr>"
  obtain ds s4 where l: "insertRecords env rs ?st s3 = (ds, s4)"
    by (cases "insertRecords env rs ?st s3")
  from insertRecords_run [OF l] obtain tr where tr0:
    "trace s4 = trace s3 @ tr" "map fst tr = map DbInsert rs" "writes tr = rs"
    "totalRecords ds = length rs" "insertedRecords ds = length (okWrites tr)"
    "errors ds =
       map (\<lambda>(r, m). \<lparr>err_record = Some r, err_deviceId = None, err_error = m,
                       err_type = None\<rparr>) (failedWrites tr)"
    by auto
  from tr0 writes_partition [of tr]
  have "insertedRecords ds + length (errors ds) = totalRecords ds" by simp
  note tr = tr0(1,2,4,5,6) this
  have "syncDeviceData env device fromDate toDate s
          = (Inr (ds\<lparr>endTime := Some (clock env (world s4))\<rparr>), s4)"
    using c g d l by (simp add: syncDeviceData_def)
  with run tr show ?thesis by auto
qed

lemma writes_inserts: "map fst tr = map DbInsert rs \<Longrightarrow> writes tr = rs"
proof (induction rs arbitrary: tr)
  case Nil
  then show ?case by simp
next
  case (Cons r rs)
  then obtain o1 tr' where "tr = (DbInsert r, o1) # tr'" "map fst tr' = map DbInsert rs"
    by (auto simp: map_eq_Cons_conv)
  with Cons.IH show ?case by simp
qed

lemmas run_simps = perform_def rejection_def orFail_def scriptedEnv_def start_def since_def
  syncDeviceData_def abortDevice_def

section \<open>Per-record write failures\<close>

text \<open>
  Claim C3. When \<^verbatim>\<open>syncDeviceData\<close> has retrieved the records \<open>rs\<close> (connect, retrieval
  and the early disconnect succeeded), it returns a result, whatever the writes do:
  every retrieved record is written once, in retrieval order, also after a rejected
  write; \<^verbatim>\<open>totalRecords\<close> is the number of retrieved records; the error list has one
  entry \<^verbatim>\<open>{record, error}\<close> per rejected write, carrying that record and the message;
  \<^verbatim>\<open>insertedRecords\<close> counts the accepted writes. For five records of which exactly the
  third write is rejected: \<^verbatim>\<open>totalRecords = 5\<close>, \<^verbatim>\<open>insertedRecords = 4\<close> and one error
  entry, for the third record.
\<close>

theorem record_write_failure_isolated:
  assumes c: "perform (DevConnect device) (dev_connect env device) s = (Inr u1, s1)"
      and g: "perform (DevGetAttendance device)
                (dev_getAttendanceData env device fromDate toDate) s1 = (Inr rs, s2)"
      and d: "perform (DevDisconnect device) (dev_disconnect env device) s2 = (Inr u2, s3)"
      and run: "syncDeviceData env device fromDate toDate s = (res, s')"
  shows "\<exists>ds. res = Inr ds \<and>
           trace s' = trace s @ since s s' \<and>
           writes (since s s') = rs \<and>
           totalRecords ds = length rs \<and>
           errors ds =
             map (\<lambda>(r, m). \<lparr>err_record = Some r, err_deviceId = None, err_error = m,
                             err_type = None\<rparr>) (failedWrites (since s s')) \<and>
           insertedRecords ds = length (okWrites (since s s')) \<and>
           (\<forall>m. length rs = 5 \<and> map snd (since s3 s') = [None, None, Some m, None, None] \<longrightarrow>
                totalRecords ds = 5 \<and> insertedRecords ds = 4 \<and>
                errors ds =
                  [\<lparr>err_record = Some (rs ! 2), err_deviceId = None, err_error = m,
                    err_type = None\<rparr>])"
proof -
  from syncDeviceData_retrieved [OF c g d run] obtain ds tr where r:
    "res = Inr ds" "trace s' = trace s3 @ tr" "map fst tr = map DbInsert rs"
    "totalRecords ds = length rs" "insertedRecords ds = length (okWrites tr)"
    "errors ds =
       map (\<lambda>(r, m). \<lparr>err_record = Some r, err_deviceId = None, err_error = m,
                       err_type = None\<rparr>) (failedWrites tr)"
    by auto
  have t3: "trace s3 = trace s @ [(DevConnect device, None), (DevGetAttendance device, None),
                                   (DevDisconnect device, None)]"
    using perform_trace [OF c] perform_trace [OF g] perform_trace [OF d]
    by (simp add: rejection_def)
  have all: "since s s' = [(DevConnect device, None), (DevGetAttendance device, None),
                            (DevDisconnect device, None)] @ tr"
    using t3 r(2) by (simp add: since_def)
  have tr: "since s3 s' = tr" using r(2) by (rule since_append)
  have w: "writes tr = rs" using r(3) by (rule writes_inserts)
  have five: "totalRecords ds = 5 \<and> insertedRecords ds = 4 \<and>
              errors ds =
                [\<lparr>err_record = Some (rs ! 2), err_deviceId = None, err_error = m,
                  err_type = None\<rparr>]"
    if "length rs = 5" "map snd tr = [None, None, Some m, None, None]" for m
  proof -
    from that(2) obtain c0 c1 c2 c3 c4 where
      "tr = [(c0, None), (c1, None), (c2, Some m), (c3, None), (c4, None)]"
      by (auto simp: map_eq_Cons_conv)
    with r(3) have
      "tr = [(DbInsert (rs ! 0), None), (DbInsert (rs ! 1), None), (DbInsert (rs ! 2), Some m),
             (DbInsert (rs ! 3), None), (DbInsert (rs ! 4), None)]"
      by (auto simp: Cons_eq_map_conv)
    with r that(1) show ?thesis by simp
  qed
  have "trace s' = trace s @ since s s'"
    using t3 r(2) by (simp add: since_def)
  then show ?thesis
    using r(1,4,5,6) w five by (simp add: all tr)
qed

theorem record_write_failure_isolated_witness:
  "\<exists>ds s'. syncDeviceData (scriptedEnv thirdWriteFails) ''A'' (JSDate 0) (JSDate 1) (start 0)
             = (Inr ds, s') \<and>
           writes (since (start 0) s') = fiveRecords \<and>
           totalRecords ds = 5 \<and> insertedRecords ds = 4 \<and>
           errors ds =
             [\<lparr>err_record = Some (punch ''103'' ''2024-01-15 08:02:00''), err_deviceId = None,
               err_error = ''write failed'', err_type = None\<rparr>]"
proof -
  let ?env = "scriptedEnv thirdWriteFails"
  let ?s = "start 0 :: (string, nat) run"
  let ?s1 = "\<lparr>world = 0, trace = [(DevConnect ''A'', None)]\<rparr> :: (string, nat) run"
  let ?s2 = "\<lparr>world = 0, trace = [(DevConnect ''A'', None), (DevGetAttendance ''A'', None)]\<rparr>
               :: (string, nat) run"
  let ?s3 = "\<lparr>world = 0, trace = [(DevConnect ''A'', None), (DevGetAttendance ''A'', None),
                                    (DevDisconnect ''A'', None)]\<rparr> :: (string, nat) run"
  obtain res s' where run: "syncDeviceData ?env ''A'' (JSDate 0) (JSDate 1) ?s = (res, s')"
    by (cases "syncDeviceData ?env ''A'' (JSDate 0) (JSDate 1) ?s")
  have c: "perform (DevConnect ''A'') (dev_connect ?env ''A'') ?s = (Inr (), ?s1)"
    by (simp add: run_simps thirdWriteFails_def)
  have g: "perform (DevGetAttendance ''A'')
             (dev_getAttendanceData ?env ''A'' (JSDate 0) (JSDate 1)) ?s1
             = (Inr fiveRecords, ?s2)"
    by (simp add: run_simps thirdWriteFails_def)
  have d: "perform (DevDisconnect ''A'') (dev_disconnect ?env ''A'') ?s2 = (Inr (), ?s3)"
    by (simp add: run_simps thirdWriteFails_def)
  have outcomes: "map snd (since ?s3 s') = [None, None, Some ''write failed'', None, None]"
    using run by (auto simp add: run_simps thirdWriteFails_def fiveRecords_def)
  from record_write_failure_isolated [OF c g d run] outcomes run
  show ?thesis
    by (auto simp: fiveRecords_def)
qed

section \<open>The window filter\<close>

lemma recordDate_prefix:
  "timeRecord r = d @ CHR '' '' # tod \<Longrightarrow> CHR '' '' \<notin> set d \<Longrightarrow> recordDate r = d"
  by (auto simp add: recordDate_def takeWhile_tail)

text \<open>
  Claim C8. With both bounds given, a record formatted from the device's listing is
  kept exactly when the text before the first space of its own \<^verbatim>\<open>timeRecord\<close> is
  lexicographically at least the \<^verbatim>\<open>YYYY-MM-DD\<close> string of \<^verbatim>\<open>fromDate\<close> and at most that of
  \<^verbatim>\<open>toDate\<close>; for a timestamp \<open>d @ '' '' @ tod\<close> that text is the date \<open>d\<close>, whatever
  the time of day \<open>tod\<close>. So a record dated exactly \<^verbatim>\<open>toDate\<close> is kept for every time of
  day (the window being non-empty, \<^verbatim>\<open>fromDate\<close>'s date not after \<^verbatim>\<open>toDate\<close>'s), and so is
  one dated exactly \<^verbatim>\<open>fromDate\<close>.
\<close>

theorem window_filter_inclusive:
  "(\<forall>log \<in> set data.
      formatLog mo config log \<in> set (getAttendanceData mo config (Some f) (Some t) data) \<longleftrightarrow>
        formatDate mo f \<le> recordDate (formatLog mo config log) \<and>
        recordDate (formatLog mo config log) \<le> formatDate mo t) \<and>
   set (getAttendanceData mo config (Some f) (Some t) data) \<subseteq> formatLog mo config ` set data \<and>
   (\<forall>log \<in> set data. \<forall>d tod.
      formatDateTime mo (timestamp log) = d @ CHR '' '' # tod \<and> CHR '' '' \<notin> set d \<longrightarrow>
        recordDate (formatLog mo config log) = d \<and>
        (formatLog mo config log \<in> set (getAttendanceData mo config (Some f) (Some t) data) \<longleftrightarrow>
           formatDate mo f \<le> d \<and> d \<le> formatDate mo t) \<and>
        (d = formatDate mo t \<and> formatDate mo f \<le> formatDate mo t \<longrightarrow>
           formatLog mo config log \<in> set (getAttendanceData mo config (Some f) (Some t) data)) \<and>
        (d = formatDate mo f \<and> formatDate mo f \<le> formatDate mo t \<longrightarrow>
           formatLog mo config log \<in> set (getAttendanceData mo config (Some f) (Some t) data)))"
proof -
  let ?kept = "getAttendanceData mo config (Some f) (Some t) data"
  have mem: "formatLog mo config log \<in> set ?kept \<longleftrightarrow>
        formatDate mo f \<le> recordDate (formatLog mo config log) \<and>
        recordDate (formatLog mo config log) \<le> formatDate mo t"
    if "log \<in> set data" for log
    using that by (auto simp: getAttendanceData_def)
  have sub: "set ?kept \<subseteq> formatLog mo config ` set data"
    by (auto simp: getAttendanceData_def)
  have rd: "recordDate (formatLog mo config log) = d"
    if "formatDateTime mo (timestamp log) = d @ CHR '' '' # tod" "CHR '' '' \<notin> set d"
    for log d tod
  proof -
    have "timeRecord (formatLog mo config log) = d @ CHR '' '' # tod"
      using that(1) by (simp add: formatLog_def)
    then show ?thesis using that(2) by (rule recordDate_prefix)
  qed
  show ?thesis
    using mem sub rd by (intro conjI ballI allI impI) auto
qed

theorem window_filter_inclusive_witness:
  "sampleLog 3 \<in> set [sampleLog 1, sampleLog 2, sampleLog 3, sampleLog 4] \<and>
   formatDateTime sampleMoment (timestamp (sampleLog 3)) = ''2024-01-15'' @ CHR '' '' # ''23:59:59'' \<and>
   CHR '' '' \<notin> set ''2024-01-15'' \<and>
   ''2024-01-15'' = formatDate sampleMoment (JSDate 3) \<and>
   formatDate sampleMoment (JSDate 2) \<le> formatDate sampleMoment (JSDate 3) \<and>
   formatLog sampleMoment (sampleConfig ''A'' ''zkteco'') (sampleLog 3)
     \<in> set (getAttendanceData sampleMoment (sampleConfig ''A'' ''zkteco'')
              (Some (JSDate 2)) (Some (JSDate 3))
              [sampleLog 1, sampleLog 2, sampleLog 3, sampleLog 4]) \<and>
   getAttendanceData sampleMoment (sampleConfig ''A'' ''zkteco'') (Some (JSDate 2)) (Some (JSDate 3))
       [sampleLog 1, sampleLog 2, sampleLog 3, sampleLog 4]
     = [formatLog sampleMoment (sampleConfig ''A'' ''zkteco'') (sampleLog 2),
        formatLog sampleMoment (sampleConfig ''A'' ''zkteco'') (sampleLog 3)]"
proof -
  have a: "sampleLog 3 \<in> set [sampleLog 1, sampleLog 2, sampleLog 3, sampleLog 4]"
    by simp
  have b: "formatDateTime sampleMoment (timestamp (sampleLog 3))
             = ''2024-01-15'' @ CHR '' '' # ''23:59:59''"
    by (simp add: sampleMoment_def sampleDateTime_def sampleLog_def)
  have c: "CHR '' '' \<notin> set ''2024-01-15''" by simp
  have d: "''2024-01-15'' = formatDate sampleMoment (JSDate 3)"
    by (simp add: sampleMoment_def sampleDateTime_def)
  have e: "formatDate sampleMoment (JSDate 2) \<le> formatDate sampleMoment (JSDate 3)"
    by (simp add: sampleMoment_def sampleDateTime_def)
  have f: "getAttendanceData sampleMoment (sampleConfig ''A'' ''zkteco'')
             (Some (JSDate 2)) (Some (JSDate 3))
             [sampleLog 1, sampleLog 2, sampleLog 3, sampleLog 4]
           = [formatLog sampleMoment (sampleConfig ''A'' ''zkteco'') (sampleLog 2),
              formatLog sampleMoment (sampleConfig ''A'' ''zkteco'') (sampleLog 3)]"
    by (simp add: getAttendanceData_def recordDate_def formatLog_def sampleMoment_def
          sampleDateTime_def sampleLog_def)
  from window_filter_inclusive
         [of "[sampleLog 1, sampleLog 2, sampleLog 3, sampleLog 4]" sampleMoment
             "sampleConfig ''A'' ''zkteco''" "JSDate 2" "JSDate 3"]
  have "formatLog sampleMoment (sampleConfig ''A'' ''zkteco'') (sampleLog 3)
     \<in> set (getAttendanceData sampleMoment (sampleConfig ''A'' ''zkteco'')
              (Some (JSDate 2)) (Some (JSDate 3))
              [sampleLog 1, sampleLog 2, sampleLog 3, sampleLog 4])"
    using a b c d e by blast
  with a b c d e f show ?thesis by blast
qed

section \<open>The registry\<close>

text \<open>
  The cache holds adapters of registered ids only. This holds of a new manager and is
  kept by registration, by \<^verbatim>\<open>getDevice\<close> and by \<^verbatim>\<open>disconnectAll\<close>.
\<close>

lemma cache_new: "fst ` set (devices newManager) \<subseteq> fst ` set (deviceConfigs newManager)"
  by (simp add: newManager_def)

lemma registerDevice_cache:
  "registerDevice m c = (r, m') \<Longrightarrow> fst ` set (devices m) \<subseteq> fst ` set (deviceConfigs m)
     \<Longrightarrow> fst ` set (devices m') \<subseteq> fst ` set (deviceConfigs m')"
proof -
  assume r: "registerDevice m c = (r, m')"
    and inv: "fst ` set (devices m) \<subseteq> fst ` set (deviceConfigs m)"
  show ?thesis
  proof (cases "cfg_id c = []")
    case True
    with r inv show ?thesis by (simp add: registerDevice_def)
  next
    case False
    with r have "m' = m\<lparr>deviceConfigs := AList.update (cfg_id c) c (deviceConfigs m)\<rparr>"
      by (simp add: registerDevice_def)
    with inv show ?thesis by (auto simp: dom_update)
  qed
qed

lemma disconnectAll_cache:
  "disconnectAll env m s = (m', s') \<Longrightarrow> fst ` set (devices m') \<subseteq> fst ` set (deviceConfigs m')"
  by (auto simp: disconnectAll_def)

lemma getDevice_configs: "getDevice m x = (r, m') \<Longrightarrow> deviceConfigs m' = deviceConfigs m"
  by (auto simp: getDevice_def split: option.splits sum.splits)

lemma update_key_cases:
  "(a, b) \<in> set (AList.update x v al) \<Longrightarrow> a = x \<or> a \<in> fst ` set al"
proof -
  assume "(a, b) \<in> set (AList.update x v al)"
  then have "a \<in> fst ` set (AList.update x v al)" by (rule rev_image_eqI) simp
  then show ?thesis by (simp add: dom_update)
qed

lemma getDevice_cache:
  assumes g: "getDevice m x = (r, m')"
      and inv: "fst ` set (devices m) \<subseteq> fst ` set (deviceConfigs m)"
  shows "fst ` set (devices m') \<subseteq> fst ` set (deviceConfigs m')"
proof -
  have cf: "deviceConfigs m' = deviceConfigs m"
    using g by (rule getDevice_configs)
  show ?thesis
  proof (cases "devices m' = devices m")
    case True
    with inv cf show ?thesis by simp
  next
    case False
    with g obtain c a where c: "map_of (deviceConfigs m) x = Some c"
      and d: "devices m' = AList.update x a (devices m)"
      by (auto simp: getDevice_def split: option.splits sum.splits)
    from c have "x \<in> fst ` set (deviceConfigs m)"
      by (metis domI dom_map_of_conv_image_fst)
    with inv cf d show ?thesis by (simp add: dom_update)
  qed
qed

lemma getDevice_unregistered:
  assumes "fst ` set (devices m) \<subseteq> fst ` set (deviceConfigs m)"
      and "map_of (deviceConfigs m) x = None"
  shows "getDevice m x = (Inl (notFound x), m)"
proof -
  have "x \<notin> fst ` set (deviceConfigs m)"
    using assms(2) by (simp add: map_of_eq_None_iff)
  then have "x \<notin> fst ` set (devices m)" using assms(1) by blast
  then have "map_of (devices m) x = None" by (simp add: map_of_eq_None_iff)
  then show ?thesis using assms(2) by (simp add: getDevice_def)
qed

lemma getDevice_registered:
  assumes "map_of (deviceConfigs m) x = Some c"
      and "\<forall>k c. map_of (deviceConfigs m) k = Some c \<longrightarrow> (\<exists>a. adapterFor c = Inr a)"
  shows "\<exists>a m'. getDevice m x = (Inr a, m')"
proof (cases "map_of (devices m) x")
  case None
  from assms obtain a where "adapterFor c = Inr a" by blast
  with None assms(1) show ?thesis by (simp add: getDevice_def)
next
  case (Some a)
  then show ?thesis by (simp add: getDevice_def)
qed

lemma getDevices_configs:
  "getDevices m ids = (r, m') \<Longrightarrow> deviceConfigs m' = deviceConfigs m"
proof (induction ids arbitrary: m r m')
  case Nil
  then show ?case by simp
next
  case (Cons x ids)
  obtain r1 m1 where g: "getDevice m x = (r1, m1)" by (cases "getDevice m x")
  note c1 = getDevice_configs [OF g]
  show ?case
  proof (cases r1)
    case (Inl e)
    with Cons.prems g c1 show ?thesis by simp
  next
    case (Inr a)
    obtain r2 m2 where g2: "getDevices m1 ids = (r2, m2)" by (cases "getDevices m1 ids")
    from Cons.IH [OF g2] c1 have "deviceConfigs m2 = deviceConfigs m" by simp
    with Cons.prems g Inr g2 show ?thesis by (auto split: sum.splits)
  qed
qed

lemma getDevices_cache:
  "getDevices m ids = (r, m') \<Longrightarrow> fst ` set (devices m) \<subseteq> fst ` set (deviceConfigs m)
     \<Longrightarrow> fst ` set (devices m') \<subseteq> fst ` set (deviceConfigs m')"
proof (induction ids arbitrary: m r m')
  case Nil
  then show ?case by simp
next
  case (Cons x ids)
  obtain r1 m1 where g: "getDevice m x = (r1, m1)" by (cases "getDevice m x")
  note c1 = getDevice_cache [OF g Cons.prems(2)]
  show ?case
  proof (cases r1)
    case (Inl e)
    with Cons.prems g c1 show ?thesis by simp
  next
    case (Inr a)
    obtain r2 m2 where g2: "getDevices m1 ids = (r2, m2)" by (cases "getDevices m1 ids")
    from Cons.IH [OF g2 c1] have "fst ` set (devices m2) \<subseteq> fst ` set (deviceConfigs m2)" .
    with Cons.prems g Inr g2 show ?thesis by (auto split: sum.splits)
  qed
qed

text \<open>A requested id without a configuration entry makes the resolution throw.\<close>

lemma getDevices_unregistered:
  assumes "fst ` set (devices m) \<subseteq> fst ` set (deviceConfigs m)"
      and "x \<in> set ids" and "map_of (deviceConfigs m) x = None"
  shows "\<exists>e m'. getDevices m ids = (Inl e, m')"
  using assms
proof (induction ids arbitrary: m)
  case Nil
  then show ?case by simp
next
  case (Cons y ids)
  obtain r1 m1 where g: "getDevice m y = (r1, m1)" by (cases "getDevice m y")
  show ?case
  proof (cases r1)
    case (Inl e)
    with g show ?thesis by simp
  next
    case (Inr a)
    have "y \<noteq> x"
      using getDevice_unregistered [OF Cons.prems(1) Cons.prems(3)] g Inr by auto
    with Cons.prems(2) have x: "x \<in> set ids" by simp
    have "map_of (deviceConfigs m1) x = None"
      using getDevice_configs [OF g] Cons.prems(3) by simp
    from Cons.IH [OF getDevice_cache [OF g Cons.prems(1)] x this]
    obtain e m' where "getDevices m1 ids = (Inl e, m')" by blast
    with g Inr show ?thesis by simp
  qed
qed

text \<open>
  When the factory supports the type of every registered configuration, the error is
  the one of the first requested id that has no configuration entry.
\<close>

lemma getDevices_notFound:
  assumes "fst ` set (devices m) \<subseteq> fst ` set (deviceConfigs m)"
      and "\<forall>k c. map_of (deviceConfigs m) k = Some c \<longrightarrow> (\<exists>a. adapterFor c = Inr a)"
      and "ids = pre @ x # post"
      and "\<forall>y \<in> set pre. map_of (deviceConfigs m) y \<noteq> None"
      and "map_of (deviceConfigs m) x = None"
  shows "\<exists>m'. getDevices m ids = (Inl (notFound x), m')"
  using assms
proof (induction pre arbitrary: m ids)
  case Nil
  then show ?case by (simp add: getDevice_unregistered)
next
  case (Cons y pre)
  from Cons.prems(4) obtain c where c: "map_of (deviceConfigs m) y = Some c" by auto
  from getDevice_registered [OF c Cons.prems(2)]
  obtain a m1 where g: "getDevice m y = (Inr a, m1)" by blast
  note cf = getDevice_configs [OF g]
  have "\<exists>m'. getDevices m1 (pre @ x # post) = (Inl (notFound x), m')"
    using Cons.prems cf
    by (intro Cons.IH [OF getDevice_cache [OF g Cons.prems(1)]]) simp_all
  with g Cons.prems(3) show ?case by auto
qed

lemma first_unregistered:
  assumes "x \<in> set ids" "map_of cs x = None"
  shows "\<exists>pre y post. ids = pre @ y # post \<and> (\<forall>z \<in> set pre. map_of cs z \<noteq> None) \<and>
           map_of cs y = None"
proof -
  from assms have "\<exists>z \<in> set ids. map_of cs z = None" by blast
  from split_list_first_prop [OF this]
  show ?thesis by blast
qed

lemma disconnectEach_trace:
  "\<exists>tr. trace (disconnectEach env cache s) = trace s @ tr \<and>
        map fst tr = map (\<lambda>(k, a). DevDisconnect a) cache"
proof (induction cache arbitrary: s)
  case Nil
  then show ?case by simp
next
  case (Cons p cache)
  obtain k a where p: "p = (k, a)" by (cases p)
  obtain r s1 where d: "perform (DevDisconnect a) (dev_disconnect env a) s = (r, s1)"
    by (cases "perform (DevDisconnect a) (dev_disconnect env a) s")
  from Cons.IH [of s1] obtain tr where
    "trace (disconnectEach env cache s1) = trace s1 @ tr"
    "map fst tr = map (\<lambda>(k, a). DevDisconnect a) cache"
    by blast
  with perform_trace [OF d] p d show ?case
    by (intro exI [of _ "(DevDisconnect a, rejection r) # tr"]) simp
qed

lemma cleanupConnections_trace:
  assumes "cleanupConnections env m s = (m', s')"
  shows "devices m' = [] \<and> deviceConfigs m' = deviceConfigs m \<and>
         (\<exists>tr. trace s' = trace s @ tr \<and>
               map fst tr = map (\<lambda>(k, a). DevDisconnect a) (devices m) @ [DbDisconnect])"
proof -
  let ?s1 = "disconnectEach env (devices m) s"
  obtain r s2 where d: "perform DbDisconnect (db_disconnect env) ?s1 = (r, s2)"
    by (cases "perform DbDisconnect (db_disconnect env) ?s1")
  from assms d have m': "m' = m\<lparr>devices := []\<rparr>" and s': "s' = s2"
    by (simp_all add: cleanupConnections_def disconnectAll_def)
  from disconnectEach_trace [of env "devices m" s] obtain tr where
    "trace ?s1 = trace s @ tr" "map fst tr = map (\<lambda>(k, a). DevDisconnect a) (devices m)"
    by blast
  with perform_trace [OF d] m' s' show ?thesis
    by (auto intro!: exI [of _ "tr @ [(DbDisconnect, rejection r)]"])
qed

lemma update_set: "set (AList.update k v al) \<subseteq> insert (k, v) (set al)"
  by (induction al) auto

lemma keyed_new: "keyed newManager"
  by (simp add: keyed_def newManager_def)

lemma registerDevice_keyed: "registerDevice m c = (r, m') \<Longrightarrow> keyed m \<Longrightarrow> keyed m'"
  using update_set [of "cfg_id c" c "deviceConfigs m"]
  by (auto simp: registerDevice_def keyed_def split: if_splits)

lemma registerDevice_keys:
  "registerDevice m c = (Inr u, m')
     \<Longrightarrow> fst ` set (deviceConfigs m') = insert (cfg_id c) (fst ` set (deviceConfigs m)) \<and>
         devices m' = devices m"
proof -
  assume "registerDevice m c = (Inr u, m')"
  then have "m' = m\<lparr>deviceConfigs := AList.update (cfg_id c) c (deviceConfigs m)\<rparr>"
    by (simp add: registerDevice_def split: if_splits)
  then show ?thesis by (simp add: dom_update)
qed

lemma registerDevices_keyed: "registerDevices m cs = (r, m') \<Longrightarrow> keyed m \<Longrightarrow> keyed m'"
proof (induction cs arbitrary: m)
  case Nil
  then show ?case by simp
next
  case (Cons c cs)
  obtain r1 m1 where g: "registerDevice m c = (r1, m1)" by (cases "registerDevice m c")
  from registerDevice_keyed [OF g Cons.prems(2)] have "keyed m1" .
  with Cons.prems(1) g Cons.IH [of m1] show ?case
    by (cases r1) auto
qed

lemma registerDevices_keys:
  "registerDevices m cs = (Inr u, m')
     \<Longrightarrow> fst ` set (deviceConfigs m') = cfg_id ` set cs \<union> fst ` set (deviceConfigs m) \<and>
         devices m' = devices m"
proof (induction cs arbitrary: m)
  case Nil
  then show ?case by simp
next
  case (Cons c cs)
  obtain r1 m1 where g: "registerDevice m c = (r1, m1)" by (cases "registerDevice m c")
  show ?case
  proof (cases r1)
    case (Inl e)
    with Cons.prems g show ?thesis by simp
  next
    case (Inr v)
    with Cons.prems g have "registerDevices m1 cs = (Inr u, m')" by simp
    from Cons.IH [OF this] registerDevice_keys [OF g [unfolded Inr]]
    show ?thesis by auto
  qed
qed

lemma create_config: "create t c = Inr a \<Longrightarrow> adapterConfig a = c"
  by (auto simp: create_def Let_def split: if_splits)

lemma getDevice_keyed:
  assumes g: "getDevice m k = (r, m')" and k: "keyed m"
  shows "keyed m' \<and> (\<forall>a. r = Inr a \<longrightarrow> cfg_id (adapterConfig a) = k)"
proof (cases "map_of (devices m) k")
  case (Some a)
  then have "(k, a) \<in> set (devices m)" by (rule map_of_SomeD)
  with k have "cfg_id (adapterConfig a) = k" by (auto simp: keyed_def)
  with g Some k show ?thesis by (auto simp: getDevice_def)
next
  case None
  show ?thesis
  proof (cases "map_of (deviceConfigs m) k")
    case n: None
    with g None k show ?thesis by (auto simp: getDevice_def)
  next
    case (Some c)
    then have "(k, c) \<in> set (deviceConfigs m)" by (rule map_of_SomeD)
    with k have ck: "cfg_id c = k" by (auto simp: keyed_def)
    show ?thesis
    proof (cases "adapterFor c")
      case (Inl e)
      with g None Some k show ?thesis by (auto simp: getDevice_def)
    next
      case (Inr a)
      then have ac: "adapterConfig a = c"
        by (auto simp: adapterFor_def Let_def dest: create_config)
      from g None Some Inr have r: "r = Inr a"
        and m': "m' = m\<lparr>devices := AList.update k a (devices m)\<rparr>"
        by (simp_all add: getDevice_def)
      have "keyed m'"
        using k ac ck update_set [of k a "devices m"]
        unfolding m' keyed_def by auto
      with r ac ck show ?thesis by simp
    qed
  qed
qed

lemma getDevices_keyed:
  "getDevices m ids = (Inr as, m') \<Longrightarrow> keyed m \<Longrightarrow> map (\<lambda>a. cfg_id (adapterConfig a)) as = ids"
proof (induction ids arbitrary: m as m')
  case Nil
  then show ?case by simp
next
  case (Cons k ids)
  obtain r1 m1 where g: "getDevice m k = (r1, m1)" by (cases "getDevice m k")
  from getDevice_keyed [OF g Cons.prems(2)]
  have k1: "keyed m1" and a1: "\<forall>a. r1 = Inr a \<longrightarrow> cfg_id (adapterConfig a) = k" by simp_all
  show ?case
  proof (cases r1)
    case (Inl e)
    with Cons.prems g show ?thesis by simp
  next
    case (Inr a)
    obtain r2 m2 where g2: "getDevices m1 ids = (r2, m2)" by (cases "getDevices m1 ids")
    with Cons.prems(1) g Inr obtain as' where r2: "r2 = Inr as'" and as: "as = a # as'"
      by (cases r2) auto
    from Cons.IH [OF g2 [unfolded r2] k1] a1 Inr as show ?thesis by simp
  qed
qed

text \<open>What \<^verbatim>\<open>loadDevicesFromFile\<close> keeps: the entries not switched off, in file order.\<close>

lemma validateDevice_fields:
  "validateDevice i d = Inr c \<Longrightarrow>
     cfg_id c = raw_id d \<and> cfg_enabled c = Some (raw_enabled d \<noteq> Some False) \<and> raw_id d \<noteq> []"
  by (auto simp: validateDevice_def split: if_splits)

lemma validateDevices_fields:
  "validateDevices i ds = Inr cs \<Longrightarrow>
     map cfg_id cs = map raw_id ds \<and>
     map cfg_enabled cs = map (\<lambda>d. Some (raw_enabled d \<noteq> Some False)) ds"
proof (induction ds arbitrary: i cs)
  case Nil
  then show ?case by simp
next
  case (Cons d ds)
  from Cons.prems obtain c cs' where c: "validateDevice i d = Inr c"
    and cs': "validateDevices (i + 1) ds = Inr cs'" and cs: "cs = c # cs'"
    by (auto split: sum.splits)
  from Cons.IH [OF cs'] validateDevice_fields [OF c] cs show ?case by simp
qed

lemma loadDevicesFromFile_ids:
  assumes "loadDevicesFromFile (Some ds) = Inr cs"
  shows "cfg_id ` set cs = raw_id ` {d \<in> set ds. raw_enabled d \<noteq> Some False}"
proof -
  from assms obtain vs where v: "validateDevices 0 ds = Inr vs"
    and cs: "cs = filter (\<lambda>c. cfg_enabled c = Some True) vs"
    by (auto simp: loadDevicesFromFile_def split: sum.splits)
  from validateDevices_fields [OF v]
  have ids: "map cfg_id vs = map raw_id ds"
    and en: "map cfg_enabled vs = map (\<lambda>d. Some (raw_enabled d \<noteq> Some False)) ds"
    by simp_all
  have len: "length vs = length ds" using ids by (rule map_eq_imp_length_eq)
  have nth: "cfg_id (vs ! i) = raw_id (ds ! i) \<and>
             cfg_enabled (vs ! i) = Some (raw_enabled (ds ! i) \<noteq> Some False)"
    if "i < length ds" for i
    using that len nth_map [of i vs cfg_id] nth_map [of i ds raw_id]
      nth_map [of i vs cfg_enabled] nth_map [of i ds "\<lambda>d. Some (raw_enabled d \<noteq> Some False)"]
      ids en
    by simp
  show ?thesis
  proof (intro set_eqI iffI)
    fix k assume "k \<in> cfg_id ` set cs"
    then obtain c where "c \<in> set vs" "cfg_enabled c = Some True" "k = cfg_id c"
      using cs by auto
    then obtain i where "i < length vs" "vs ! i = c" by (auto simp: in_set_conv_nth)
    with nth [of i] len \<open>cfg_enabled c = Some True\<close> \<open>k = cfg_id c\<close>
    show "k \<in> raw_id ` {d \<in> set ds. raw_enabled d \<noteq> Some False}"
      by (auto intro!: image_eqI [of _ _ "ds ! i"])
  next
    fix k assume "k \<in> raw_id ` {d \<in> set ds. raw_enabled d \<noteq> Some False}"
    then obtain d where "d \<in> set ds" "raw_enabled d \<noteq> Some False" "k = raw_id d" by auto
    then obtain i where i: "i < length ds" "ds ! i = d" by (auto simp: in_set_conv_nth)
    with nth [of i] len \<open>raw_enabled d \<noteq> Some False\<close> \<open>k = raw_id d\<close>
    have "vs ! i \<in> set cs" "cfg_id (vs ! i) = k"
      using cs by auto
    then show "k \<in> cfg_id ` set cs" by (auto intro: rev_image_eqI)
  qed
qed

section \<open>Disabled endpoints\<close>

text \<open>
  Claim C9, as the code has it. An endpoint that \<^verbatim>\<open>devices.json\<close> lists with
  \<^verbatim>\<open>enabled: false\<close> is dropped by \<^verbatim>\<open>loadDevicesFromFile\<close> and never registered with the
  manager, and the manager itself never reads \<^verbatim>\<open>enabled\<close>. So (no enabled entry of the
  file carrying the same id) its id is not among the keys that every bulk operation
  enumerates, \<^verbatim>\<open>getAllDevices\<close> returns no adapter for it, and \<^verbatim>\<open>getDevice\<close> with its id
  throws the configuration-not-found error.
\<close>

theorem disabled_endpoint_not_registered:
  assumes init: "initialize (Some raws) = Inr m"
      and d: "d \<in> set raws" "raw_enabled d = Some False"
      and uniq: "\<forall>x \<in> set raws. raw_id x = raw_id d \<longrightarrow> raw_enabled x = Some False"
  shows "raw_id d \<notin> fst ` set (deviceConfigs m) \<and>
         (\<forall>as m'. getAllDevices m = (Inr as, m') \<longrightarrow>
            raw_id d \<notin> set (map (\<lambda>a. cfg_id (adapterConfig a)) as)) \<and>
         getDevice m (raw_id d) = (Inl (notFound (raw_id d)), m)"
proof -
  from init obtain cs u where l: "loadDevicesFromFile (Some raws) = Inr cs"
    and r: "registerDevices newManager cs = (Inr u, m)"
    by (auto simp: initialize_def split: sum.splits if_splits prod.splits)
  from registerDevices_keys [OF r]
  have keys: "fst ` set (deviceConfigs m) = cfg_id ` set cs" and cache: "devices m = []"
    by (simp_all add: newManager_def)
  have notin: "raw_id d \<notin> fst ` set (deviceConfigs m)"
    unfolding keys loadDevicesFromFile_ids [OF l] using uniq by auto
  have km: "keyed m" using r keyed_new by (rule registerDevices_keyed)
  have all: "raw_id d \<notin> set (map (\<lambda>a. cfg_id (adapterConfig a)) as)"
    if "getAllDevices m = (Inr as, m')" for as m'
  proof -
    from that have "getDevices m (map fst (deviceConfigs m)) = (Inr as, m')"
      by (simp add: getAllDevices_def)
    from getDevices_keyed [OF this km] notin show ?thesis by simp
  qed
  have "map_of (deviceConfigs m) (raw_id d) = None"
    using notin by (simp add: map_of_eq_None_iff)
  then have "getDevice m (raw_id d) = (Inl (notFound (raw_id d)), m)"
    using cache by (intro getDevice_unregistered) simp_all
  with notin all show ?thesis by blast
qed

lemmas registry_simps = initialize_def loadDevicesFromFile_def validateDevice_def orElse_def
  orDefault_def newManager_def registerDevice_def sampleRaw_def sampleConfig_def
  getDevice_def getAllDevices_def adapterFor_def autoDetectType_def create_def
  toLowerCase_def lowerChar_def notFound_def oneDeviceManager_def

lemma initialize_sample:
  "initialize (Some [sampleRaw ''D1'' None, sampleRaw ''D2'' (Some False)]) = Inr oneDeviceManager"
  by (simp add: registry_simps)

theorem disabled_endpoint_not_registered_witness:
  "initialize (Some [sampleRaw ''D1'' None, sampleRaw ''D2'' (Some False)]) = Inr oneDeviceManager \<and>
   sampleRaw ''D2'' (Some False) \<in> set [sampleRaw ''D1'' None, sampleRaw ''D2'' (Some False)] \<and>
   raw_enabled (sampleRaw ''D2'' (Some False)) = Some False \<and>
   getAllDevices oneDeviceManager
     = (Inr [ZKTecoAdapter (sampleConfig ''D1'' ''zkteco'')],
        oneDeviceManager\<lparr>devices := [(''D1'', ZKTecoAdapter (sampleConfig ''D1'' ''zkteco''))]\<rparr>) \<and>
   ''D2'' \<notin> set (map (\<lambda>a. cfg_id (adapterConfig a)) [ZKTecoAdapter (sampleConfig ''D1'' ''zkteco'')]) \<and>
   getDevice oneDeviceManager ''D2'' = (Inl (notFound ''D2''), oneDeviceManager)"
proof -
  let ?raws = "[sampleRaw ''D1'' None, sampleRaw ''D2'' (Some False)]"
  have a: "sampleRaw ''D2'' (Some False) \<in> set ?raws" by simp
  have b: "raw_enabled (sampleRaw ''D2'' (Some False)) = Some False"
    by (simp add: sampleRaw_def)
  have c: "\<forall>x \<in> set ?raws. raw_id x = raw_id (sampleRaw ''D2'' (Some False))
             \<longrightarrow> raw_enabled x = Some False"
    by (simp add: sampleRaw_def)
  have g: "getAllDevices oneDeviceManager
     = (Inr [ZKTecoAdapter (sampleConfig ''D1'' ''zkteco'')],
        oneDeviceManager\<lparr>devices := [(''D1'', ZKTecoAdapter (sampleConfig ''D1'' ''zkteco''))]\<rparr>)"
    by (simp add: registry_simps)
  have i: "raw_id (sampleRaw ''D2'' (Some False)) = ''D2''" by (simp add: sampleRaw_def)
  from disabled_endpoint_not_registered [OF initialize_sample a b c] g
  show ?thesis
    unfolding i using initialize_sample a b by simp
qed

text \<open>
  The claim as stated fails: with \<^verbatim>\<open>D2\<close> disabled in \<^verbatim>\<open>devices.json\<close>, start-up registers
  \<^verbatim>\<open>D1\<close> only, and \<^verbatim>\<open>getDevice('D2')\<close> throws instead of returning a handle.
\<close>

theorem disabled_endpoint_get_counterexample:
  "initialize (Some [sampleRaw ''D1'' None, sampleRaw ''D2'' (Some False)]) = Inr oneDeviceManager \<and>
   fst (getDevice oneDeviceManager ''D2'') = Inl ''Device configuration not found for ID: D2''"
  by (simp add: registry_simps)

section \<open>An unknown explicit device id\<close>

text \<open>
  Claim C6. \<^verbatim>\<open>deviceIds\<close> is given (truthy, as the code tests it) and names an id that
  has no configuration entry. Then \<^verbatim>\<open>syncMultipleDevices\<close> throws the error that the
  resolution of the ids threw, and returns no statistics. Everything it did to a
  collaborator is the clean-up of its \<^verbatim>\<open>catch\<close> block: disconnect calls on the cached
  adapters and on the database. No device was connected or asked for anything, the
  database was not connected and no record was written. When the factory supports the
  type of every registered configuration, the error is the configuration-not-found
  error of \<^verbatim>\<open>getDevice\<close> for a requested id that has no entry.
\<close>

theorem unknown_device_fatal:
  assumes inv: "fst ` set (devices m) \<subseteq> fst ` set (deviceConfigs m)"
      and giv: "given deviceIds"
      and unk: "x \<in> set (idsArray deviceIds)" "map_of (deviceConfigs m) x = None"
      and run: "syncMultipleDevices env m fromDate toDate deviceIds s = (res, m', s')"
  shows "(\<exists>e. res = Inl e \<and> fst (resolveDevices m deviceIds) = Inl e) \<and>
         trace s' = trace s @ since s s' \<and>
         (\<forall>ev \<in> set (since s s'). fst ev = DbDisconnect \<or> (\<exists>a. fst ev = DevDisconnect a)) \<and>
         devices m' = [] \<and>
         ((\<forall>k c. map_of (deviceConfigs m) k = Some c \<longrightarrow> (\<exists>a. adapterFor c = Inr a)) \<longrightarrow>
            (\<exists>y \<in> set (idsArray deviceIds).
               map_of (deviceConfigs m) y = None \<and> res = Inl (notFound y)))"
proof -
  from getDevices_unregistered [OF inv unk] obtain e m1 where
    g: "getDevices m (idsArray deviceIds) = (Inl e, m1)" by blast
  with giv have r: "resolveDevices m deviceIds = (Inl e, m1)"
    by (simp add: resolveDevices_def)
  obtain m2 s2 where c: "cleanupConnections env m1 s = (m2, s2)"
    by (cases "cleanupConnections env m1 s")
  from run r c have res: "res = Inl e" and m': "m' = m2" and s': "s' = s2"
    by (simp_all add: syncMultipleDevices_def)
  from cleanupConnections_trace [OF c] obtain tr where
    d: "devices m2 = []" and t: "trace s2 = trace s @ tr"
    and f: "map fst tr = map (\<lambda>(k, a). DevDisconnect a) (devices m1) @ [DbDisconnect]"
    by blast
  have ev: "fst ev = DbDisconnect \<or> (\<exists>a. fst ev = DevDisconnect a)" if "ev \<in> set tr" for ev
  proof -
    from that have "fst ev \<in> set (map fst tr)" by simp
    then show ?thesis unfolding f by auto
  qed
  have nf: "\<exists>y \<in> set (idsArray deviceIds). map_of (deviceConfigs m) y = None \<and> res = Inl (notFound y)"
    if sup: "\<forall>k c. map_of (deviceConfigs m) k = Some c \<longrightarrow> (\<exists>a. adapterFor c = Inr a)"
  proof -
    from first_unregistered [OF unk] obtain pre y post where
      p: "idsArray deviceIds = pre @ y # post"
         "\<forall>z \<in> set pre. map_of (deviceConfigs m) z \<noteq> None" "map_of (deviceConfigs m) y = None"
      by blast
    from getDevices_notFound [OF inv sup p] g have "e = notFound y" by auto
    with p res show ?thesis by auto
  qed
  from since_append [OF t] have "since s s2 = tr" .
  with res r m' s' d ev nf t show ?thesis by auto
qed

lemmas pass_simps = syncMultipleDevices_def resolveDevices_def cleanupConnections_def
  disconnectAll_def syncPass_def updateAllDevicesLastSync_def syncTimestamp_def emptyStats_def
  deviceSynced_def deviceFailed_def setProperty_def putOwn_def arrayIndex_def isDigit_def
  emptyObject_def firebirdEnv_def configInfo_def executeQuery_def noLogs_def

theorem unknown_device_fatal_witness:
  "fst ` set (devices oneDeviceManager) \<subseteq> fst ` set (deviceConfigs oneDeviceManager) \<and>
   given (IdArray [''D1'', ''ghost'']) \<and>
   ''ghost'' \<in> set (idsArray (IdArray [''D1'', ''ghost''])) \<and>
   map_of (deviceConfigs oneDeviceManager) ''ghost'' = None \<and>
   syncMultipleDevices (firebirdEnv noLogs) oneDeviceManager (JSDate 0) (JSDate 1)
       (IdArray [''D1'', ''ghost'']) (start False)
     = (Inl (notFound ''ghost''), oneDeviceManager,
        \<lparr>world = False,
         trace = [(DevDisconnect (ZKTecoAdapter (sampleConfig ''D1'' ''zkteco'')), None),
                  (DbDisconnect, None)]\<rparr>)"
proof -
  let ?ids = "IdArray [''D1'', ''ghost'']"
  have inv: "fst ` set (devices oneDeviceManager) \<subseteq> fst ` set (deviceConfigs oneDeviceManager)"
    by (simp add: oneDeviceManager_def)
  have giv: "given ?ids" by simp
  have unk: "''ghost'' \<in> set (idsArray ?ids)" "map_of (deviceConfigs oneDeviceManager) ''ghost'' = None"
    by (simp_all add: oneDeviceManager_def)
  have sup: "\<forall>k c. map_of (deviceConfigs oneDeviceManager) k = Some c \<longrightarrow> (\<exists>a. adapterFor c = Inr a)"
    by (simp add: registry_simps)
  have run: "syncMultipleDevices (firebirdEnv noLogs) oneDeviceManager (JSDate 0) (JSDate 1)
       ?ids (start False)
     = (Inl (notFound ''ghost''), oneDeviceManager,
        \<lparr>world = False,
         trace = [(DevDisconnect (ZKTecoAdapter (sampleConfig ''D1'' ''zkteco'')), None),
                  (DbDisconnect, None)]\<rparr>)"
    by (simp add: pass_simps registry_simps run_simps)
  from unknown_device_fatal [OF inv giv unk run] sup inv giv unk run
  show ?thesis by simp
qed

section \<open>The device loop\<close>

lemma connects_append: "connects (xs @ ys) = connects xs @ connects ys"
  by (induction xs rule: connects.induct) simp_all

lemma connects_inserts: "map fst tr = map DbInsert rs \<Longrightarrow> connects tr = []"
proof (induction rs arbitrary: tr)
  case Nil
  then show ?case by simp
next
  case (Cons r rs)
  then obtain o1 tr' where "tr = (DbInsert r, o1) # tr'" "map fst tr' = map DbInsert rs"
    by (auto simp: map_eq_Cons_conv)
  with Cons.IH show ?case by simp
qed

lemma abortDevice_run:
  "abortDevice env d m s = (r, s') \<Longrightarrow>
     r = Inl m \<and> (\<exists>x. trace s' = trace s @ [(DevDisconnect d, x)])"
  by (auto simp: abortDevice_def perform_def split: prod.splits)

lemma updates_append: "updates (xs @ ys) = updates xs @ updates ys"
  by (induction xs rule: updates.induct) simp_all

lemma updates_inserts: "map fst tr = map DbInsert rs \<Longrightarrow> updates tr = []"
proof (induction rs arbitrary: tr)
  case Nil
  then show ?case by simp
next
  case (Cons r rs)
  then obtain o1 tr' where "tr = (DbInsert r, o1) # tr'" "map fst tr' = map DbInsert rs"
    by (auto simp: map_eq_Cons_conv)
  with Cons.IH show ?case by simp
qed

text \<open>
  What \<^verbatim>\<open>syncDeviceData\<close> does to the collaborators: one \<^verbatim>\<open>connect()\<close>, on its device;
  no checkpoint update; and no write at all when it throws.
\<close>

lemma syncDeviceData_events:
  assumes "syncDeviceData env d f t s = (r, s')"
  shows "\<exists>tr. trace s' = trace s @ tr \<and> connects tr = [d] \<and> updates tr = [] \<and>
              (\<forall>e. r = Inl e \<longrightarrow> writes tr = [])"
proof -
  obtain r1 s1 where c: "perform (DevConnect d) (dev_connect env d) s = (r1, s1)"
    by (cases "perform (DevConnect d) (dev_connect env d) s")
  note t1 = perform_trace [OF c]
  show ?thesis
  proof (cases r1)
    case (Inl m)
    with assms c have "abortDevice env d m s1 = (r, s')" by (simp add: syncDeviceData_def)
    from abortDevice_run [OF this] t1 show ?thesis by auto
  next
    case (Inr u)
    obtain r2 s2 where g: "perform (DevGetAttendance d) (dev_getAttendanceData env d f t) s1 = (r2, s2)"
      by (cases "perform (DevGetAttendance d) (dev_getAttendanceData env d f t) s1")
    note t2 = perform_trace [OF g]
    show ?thesis
    proof (cases r2)
      case (Inl m)
      with assms c Inr g have "abortDevice env d m s2 = (r, s')" by (simp add: syncDeviceData_def)
      from abortDevice_run [OF this] t1 t2 show ?thesis by auto
    next
      case rs: (Inr rs)
      obtain r3 s3 where x: "perform (DevDisconnect d) (dev_disconnect env d) s2 = (r3, s3)"
        by (cases "perform (DevDisconnect d) (dev_disconnect env d) s2")
      note t3 = perform_trace [OF x]
      show ?thesis
      proof (cases r3)
        case (Inl m)
        with assms c Inr g rs x have "abortDevice env d m s3 = (r, s')"
          by (simp add: syncDeviceData_def)
        from abortDevice_run [OF this] t1 t2 t3 show ?thesis by auto
      next
        case u3: (Inr u3)
        let ?st = "\<lparr>totalRecords = length rs, insertedRecords = 0, errors = [],
                    startTime = Some (clock env (world s)), endTime = None\<rparr>"
        obtain ds s4 where l: "insertRecords env rs ?st s3 = (ds, s4)"
          by (cases "insertRecords env rs ?st s3")
        with assms c Inr g rs x u3 have s': "s' = s4" and r: "\<exists>ds'. r = Inr ds'"
          by (auto simp: syncDeviceData_def)
        from insertRecords_run [OF l] obtain tr where
          "trace s4 = trace s3 @ tr" "map fst tr = map DbInsert rs" by blast
        with t1 t2 t3 s' r connects_inserts [of tr rs] updates_inserts [of tr rs]
        show ?thesis by (auto simp: connects_append updates_append)
      qed
    qed
  qed
qed

lemma syncDeviceData_connects:
  assumes "syncDeviceData env d f t s = (r, s')"
  shows "\<exists>tr. trace s' = trace s @ tr \<and> connects tr = [d]"
  using syncDeviceData_events [OF assms] by blast


text \<open>The loop over a device set that is split in two, and the trace of the loop.\<close>

lemma syncDevices_append:
  "syncDevices env (pre @ post) f t st s =
     (case syncDevices env pre f t st s of
        (Inl e, s1) \<Rightarrow> (Inl e, s1)
      | (Inr st1, s1) \<Rightarrow> syncDevices env post f t st1 s1)"
proof (induction pre arbitrary: st s)
  case Nil
  then show ?case by simp
next
  case (Cons d pre)
  then show ?case
    by (simp add: Let_def split: prod.splits sum.splits)
qed

text \<open>The device loop only extends the trace, and never updates a checkpoint.\<close>

lemma syncDevices_updates:
  "syncDevices env devs f t st s = (r, s') \<Longrightarrow> \<exists>tr. trace s' = trace s @ tr \<and> updates tr = []"
proof (induction devs arbitrary: st s)
  case Nil
  then show ?case by simp
next
  case (Cons d devs)
  obtain r1 s1 where p: "perform (DevGetInfo d) (dev_getDeviceInfo env d) s = (r1, s1)"
    by (cases "perform (DevGetInfo d) (dev_getDeviceInfo env d) s")
  note t1 = perform_trace [OF p]
  show ?case
  proof (cases r1)
    case (Inl e)
    with Cons.prems p t1 show ?thesis by auto
  next
    case (Inr i)
    obtain r2 s2 where y: "syncDeviceData env d f t s1 = (r2, s2)"
      by (cases "syncDeviceData env d f t s1")
    from syncDeviceData_events [OF y] obtain tr2 where
      t2: "trace s2 = trace s1 @ tr2" "updates tr2 = []" by blast
    have "\<exists>st1. syncDevices env devs f t st1 s2 = (r, s')"
      using Cons.prems p Inr y by (cases r2) (auto simp: Let_def)
    then obtain st1 where "syncDevices env devs f t st1 s2 = (r, s')" by blast
    from Cons.IH [OF this] obtain tr where "trace s' = trace s2 @ tr" "updates tr = []"
      by blast
    with t1 t2 show ?thesis by (auto simp: updates_append)
  qed
qed

text \<open>
  One round of the loop that does not leave it: \<^verbatim>\<open>getDeviceInfo\<close> resolved, and the rest of
  the loop starts from the statistics of the \<^verbatim>\<open>try\<close> block or of the \<^verbatim>\<open>catch\<close> block.
\<close>

lemma syncDevices_round:
  assumes "syncDevices env (d # devs) f t st s = (Inr st', s')"
  obtains i s1 r s2 st1 where
    "perform (DevGetInfo d) (dev_getDeviceInfo env d) s = (Inr i, s1)"
    "syncDeviceData env d f t s1 = (r, s2)"
    "st1 = (case r of Inr ds \<Rightarrow> deviceSynced env (info_id i) ds st
                    | Inl m \<Rightarrow> deviceFailed (info_id i) m st)"
    "syncDevices env devs f t st1 s2 = (Inr st', s')"
proof -
  obtain r1 s1 where p: "perform (DevGetInfo d) (dev_getDeviceInfo env d) s = (r1, s1)"
    by (cases "perform (DevGetInfo d) (dev_getDeviceInfo env d) s")
  with assms obtain i where i: "r1 = Inr i" by (cases r1) auto
  obtain r s2 where y: "syncDeviceData env d f t s1 = (r, s2)"
    by (cases "syncDeviceData env d f t s1")
  let ?st1 = "case r of Inr ds \<Rightarrow> deviceSynced env (info_id i) ds st
                      | Inl m \<Rightarrow> deviceFailed (info_id i) m st"
  have "syncDevices env devs f t ?st1 s2 = (Inr st', s')"
    using assms p i y by (cases r) (simp_all add: Let_def)
  with p i y that show thesis by blast
qed

lemma deviceFailed_fields:
  "totalRecords (deviceFailed k m st) = totalRecords st"
  "insertedRecords (deviceFailed k m st) = insertedRecords st"
  "errors (deviceFailed k m st) =
     errors st @ [\<lparr>err_record = None, err_deviceId = Some k, err_error = m,
                   err_type = Some ''device_sync_error''\<rparr>]"
  by (simp_all add: deviceFailed_def)

lemma deviceSynced_fields:
  "totalRecords (deviceSynced env k ds st) = totalRecords st + totalRecords ds"
  "insertedRecords (deviceSynced env k ds st) = insertedRecords st + insertedRecords ds"
  "errors (deviceSynced env k ds st) =
     errors st @
       (if length (errors ds) \<le> maxSpread env then errors ds
        else [\<lparr>err_record = None, err_deviceId = Some k, err_error = rangeError,
               err_type = Some ''device_sync_error''\<rparr>])"
  by (simp_all add: deviceSynced_def deviceFailed_def Let_def)

text \<open>
  A loop that completes has called \<^verbatim>\<open>connect()\<close> on every device of its set, in order.
\<close>

lemma syncDevices_connects:
  "syncDevices env devs f t st s = (Inr st', s') \<Longrightarrow>
     \<exists>tr. trace s' = trace s @ tr \<and> connects tr = devs"
proof (induction devs arbitrary: st s)
  case Nil
  then show ?case by simp
next
  case (Cons d devs)
  from Cons.prems obtain i s1 r s2 st1 where
    p: "perform (DevGetInfo d) (dev_getDeviceInfo env d) s = (Inr i, s1)"
    and y: "syncDeviceData env d f t s1 = (r, s2)"
    and rest: "syncDevices env devs f t st1 s2 = (Inr st', s')"
    by (rule syncDevices_round)
  from syncDeviceData_connects [OF y] obtain tr2 where
    t2: "trace s2 = trace s1 @ tr2" "connects tr2 = [d]" by blast
  from Cons.IH [OF rest] obtain tr where "trace s' = trace s2 @ tr" "connects tr = devs"
    by blast
  with perform_trace [OF p] t2 show ?case
    by (intro exI [of _ "(DevGetInfo d, None) # tr2 @ tr"])
       (simp add: connects_append rejection_def)
qed

text \<open>
  The loop does not read the statistics: from other statistics it makes the same calls,
  and adds the same counts and the same error entries.
\<close>

lemma syncDevices_shift:
  "syncDevices env devs f t a s = (Inr a', s') \<Longrightarrow>
     \<exists>b' more. syncDevices env devs f t b s = (Inr b', s') \<and>
        totalRecords b' + totalRecords a = totalRecords b + totalRecords a' \<and>
        insertedRecords b' + insertedRecords a = insertedRecords b + insertedRecords a' \<and>
        errors a' = errors a @ more \<and> errors b' = errors b @ more"
proof (induction devs arbitrary: a b s)
  case Nil
  then show ?case by simp
next
  case (Cons d devs)
  from Cons.prems obtain i s1 r s2 a1 where
    p: "perform (DevGetInfo d) (dev_getDeviceInfo env d) s = (Inr i, s1)"
    and y: "syncDeviceData env d f t s1 = (r, s2)"
    and a1: "a1 = (case r of Inr ds \<Rightarrow> deviceSynced env (info_id i) ds a
                           | Inl m \<Rightarrow> deviceFailed (info_id i) m a)"
    and rest: "syncDevices env devs f t a1 s2 = (Inr a', s')"
    by (rule syncDevices_round)
  define b1 where "b1 = (case r of Inr ds \<Rightarrow> deviceSynced env (info_id i) ds b
                                 | Inl m \<Rightarrow> deviceFailed (info_id i) m b)"
  from Cons.IH [OF rest, of b1] obtain b' more where
    run: "syncDevices env devs f t b1 s2 = (Inr b', s')"
    and tot: "totalRecords b' + totalRecords a1 = totalRecords b1 + totalRecords a'"
    and ins: "insertedRecords b' + insertedRecords a1 = insertedRecords b1 + insertedRecords a'"
    and err: "errors a' = errors a1 @ more" "errors b' = errors b1 @ more"
    by blast
  have step: "syncDevices env (d # devs) f t b s = (Inr b', s')"
    using p y run by (cases r) (simp_all add: b1_def Let_def)
  obtain one where one:
    "totalRecords a1 + totalRecords b = totalRecords b1 + totalRecords a"
    "insertedRecords a1 + insertedRecords b = insertedRecords b1 + insertedRecords a"
    "errors a1 = errors a @ one" "errors b1 = errors b @ one"
    using a1 b1_def by (cases r) (simp_all add: deviceFailed_fields deviceSynced_fields)
  from tot one(1) have "totalRecords b' + totalRecords a = totalRecords b + totalRecords a'"
    by simp
  moreover from ins one(2)
  have "insertedRecords b' + insertedRecords a = insertedRecords b + insertedRecords a'"
    by simp
  moreover from err one(3,4)
  have "errors a' = errors a @ (one @ more)" "errors b' = errors b @ (one @ more)"
    by simp_all
  ultimately show ?case using step by blast
qed

section \<open>Per-device failures\<close>

text \<open>
  Claim C1, as the code has it. The resolved device set is \<open>pre @ d # post\<close>; the loop
  has handled \<open>pre\<close> and reached \<open>d\<close> with the statistics \<open>st\<close>; \<^verbatim>\<open>syncDeviceData\<close>
  throws \<open>e\<close> for \<open>d\<close>. Then no record of \<open>d\<close> was written, and the loop goes on with
  \<open>post\<close> from statistics that differ from \<open>st\<close> by one pushed error entry
  \<^verbatim>\<open>{deviceId, error, type: 'device_sync_error'}\<close> with the id of \<open>d\<close> and the message \<open>e\<close>,
  and by the property of \<^verbatim>\<open>deviceStats\<close> for that id, an object with zero counters; the
  top-level counters are those of \<open>st\<close>.

  Whether the pass returns depends on what follows. Let \<open>stPost\<close> be the statistics that
  the loop over \<open>post\<close> collects by itself (from empty statistics). When that loop
  completes, the checkpoint step completes and the database disconnects, the pass returns
  the statistics \<open>st4\<close> of its loop (with the end time): the counters are those of \<open>st\<close>
  plus those of \<open>stPost\<close>, the error list is that of \<open>st\<close>, then the one entry for \<open>d\<close>,
  then the entries of \<open>stPost\<close>, and \<^verbatim>\<open>connect()\<close> was called on every device of \<open>post\<close>,
  in order.
\<close>

theorem device_failure_isolated:
  assumes res: "resolveDevices m deviceIds = (Inr (pre @ d # post), m1)"
      and conn: "perform DbConnect (db_connect env) s = (Inr u, s0)"
      and before: "syncDevices env pre fromDate toDate (emptyStats (clock env (world s))) s0
                     = (Inr st, s1)"
      and info: "perform (DevGetInfo d) (dev_getDeviceInfo env d) s1 = (Inr i, s2)"
      and fail: "syncDeviceData env d fromDate toDate s2 = (Inl e, s3)"
      and run: "syncMultipleDevices env m fromDate toDate deviceIds s = (result, m', s')"
  shows "trace s3 = trace s2 @ since s2 s3 \<and>
         writes (since s2 s3) = [] \<and>
         syncDevices env (pre @ d # post) fromDate toDate (emptyStats (clock env (world s))) s0
           = syncDevices env post fromDate toDate
               (st\<lparr>errors := errors st @
                      [\<lparr>err_record = None, err_deviceId = Some (info_id i), err_error = e,
                        err_type = Some ''device_sync_error''\<rparr>],
                   deviceStats :=
                     setProperty (info_id i)
                       \<lparr>totalRecords = 0, insertedRecords = 0,
                        errors = [\<lparr>err_record = None, err_deviceId = None, err_error = e,
                                   err_type = None\<rparr>],
                        startTime = None, endTime = None\<rparr>
                       (deviceStats st)\<rparr>) s3 \<and>
         (\<forall>stPost s4 s5 u' s6.
            syncDevices env post fromDate toDate (emptyStats (clock env (world s))) s3
              = (Inr stPost, s4) \<and>
            (if 0 < insertedRecords st + insertedRecords stPost
             then updateAllDevicesLastSync env (pre @ d # post) s4
             else (Inr (), s4)) = (Inr (), s5) \<and>
            perform DbDisconnect (db_disconnect env) s5 = (Inr u', s6) \<longrightarrow>
            (\<exists>st4.
               syncDevices env (pre @ d # post) fromDate toDate
                 (emptyStats (clock env (world s))) s0 = (Inr st4, s4) \<and>
               result = Inr (st4\<lparr>endTime := Some (clock env (world s6))\<rparr>) \<and> s' = s6 \<and>
               totalRecords st4 = totalRecords st + totalRecords stPost \<and>
               insertedRecords st4 = insertedRecords st + insertedRecords stPost \<and>
               errors st4 =
                 errors st @
                 \<lparr>err_record = None, err_deviceId = Some (info_id i), err_error = e,
                  err_type = Some ''device_sync_error''\<rparr> # errors stPost \<and>
               trace s4 = trace s3 @ since s3 s4 \<and>
               connects (since s3 s4) = post))"
proof -
  let ?st0 = "emptyStats (clock env (world s))"
  let ?entry = "\<lparr>err_record = None, err_deviceId = Some (info_id i), err_error = e,
                  err_type = Some ''device_sync_error''\<rparr>"
  let ?st1 = "st\<lparr>errors := errors st @ [?entry],
                  deviceStats :=
                    setProperty (info_id i)
                      \<lparr>totalRecords = 0, insertedRecords = 0,
                       errors = [\<lparr>err_record = None, err_deviceId = None, err_error = e,
                                  err_type = None\<rparr>],
                       startTime = None, endTime = None\<rparr>
                      (deviceStats st)\<rparr>"
  have st1: "deviceFailed (info_id i) e st = ?st1" by (simp add: deviceFailed_def)
  have step: "syncDevices env (d # post) fromDate toDate st s1
                = syncDevices env post fromDate toDate ?st1 s3"
    using info fail by (simp add: st1)
  have loop: "syncDevices env (pre @ d # post) fromDate toDate ?st0 s0
                = syncDevices env post fromDate toDate ?st1 s3"
    using before step by (simp add: syncDevices_append)
  from syncDeviceData_events [OF fail]
  have quiet: "trace s3 = trace s2 @ since s2 s3" "writes (since s2 s3) = []"
    by (auto simp: since_def)
  have returns:
    "\<exists>st4.
       syncDevices env (pre @ d # post) fromDate toDate ?st0 s0 = (Inr st4, s4) \<and>
       result = Inr (st4\<lparr>endTime := Some (clock env (world s6))\<rparr>) \<and> s' = s6 \<and>
       totalRecords st4 = totalRecords st + totalRecords stPost \<and>
       insertedRecords st4 = insertedRecords st + insertedRecords stPost \<and>
       errors st4 = errors st @ ?entry # errors stPost \<and>
       trace s4 = trace s3 @ since s3 s4 \<and>
       connects (since s3 s4) = post"
    if later: "syncDevices env post fromDate toDate ?st0 s3 = (Inr stPost, s4)"
      and upd: "(if 0 < insertedRecords st + insertedRecords stPost
                 then updateAllDevicesLastSync env (pre @ d # post) s4
                 else (Inr (), s4)) = (Inr (), s5)"
      and disc: "perform DbDisconnect (db_disconnect env) s5 = (Inr u', s6)"
    for stPost s4 s5 u' s6
  proof -
    from syncDevices_shift [OF later, of ?st1] obtain st4 more where
      post: "syncDevices env post fromDate toDate ?st1 s3 = (Inr st4, s4)"
      and tot: "totalRecords st4 + totalRecords ?st0 = totalRecords ?st1 + totalRecords stPost"
      and ins: "insertedRecords st4 + insertedRecords ?st0
                  = insertedRecords ?st1 + insertedRecords stPost"
      and err: "errors stPost = errors ?st0 @ more" "errors st4 = errors ?st1 @ more"
      by blast
    from tot have tot': "totalRecords st4 = totalRecords st + totalRecords stPost"
      by (simp add: emptyStats_def)
    from ins have ins': "insertedRecords st4 = insertedRecords st + insertedRecords stPost"
      by (simp add: emptyStats_def)
    from err have err': "errors st4 = errors st @ ?entry # errors stPost"
      by (simp add: emptyStats_def)
    from syncDevices_connects [OF later] obtain tr where
      tr: "trace s4 = trace s3 @ tr" "connects tr = post" by blast
    have "syncPass env (pre @ d # post) fromDate toDate ?st0 s
            = (Inr (st4\<lparr>endTime := Some (clock env (world s6))\<rparr>), s6)"
      using conn loop post upd disc ins' by (simp add: syncPass_def)
    with run res have "result = Inr (st4\<lparr>endTime := Some (clock env (world s6))\<rparr>)" "s' = s6"
      by (auto simp: syncMultipleDevices_def)
    with tot' ins' err' since_append [OF tr(1)] since_extends [OF tr(1)] tr(2) loop post
    show ?thesis by (intro exI [of _ st4]) simp
  qed
  from quiet loop returns show ?thesis by blast
qed

lemmas fixture_simps = twoDeviceManager_def deviceA_def deviceB_def threeRecords_def
  deviceADown_def checkpointARejected_def punch_def

theorem device_failure_isolated_witness:
  "\<exists>stats m' s'.
     syncMultipleDevices (scriptedEnv deviceADown) twoDeviceManager (JSDate 0) (JSDate 1) NoIds
       (start 0) = (Inr stats, m', s') \<and>
     connects (trace s') = [deviceA, deviceB] \<and>
     totalRecords stats = 3 \<and> insertedRecords stats = 3 \<and>
     errors stats =
       [\<lparr>err_record = None, err_deviceId = Some ''A'', err_error = ''connect timeout'',
         err_type = Some ''device_sync_error''\<rparr>] \<and>
     map_of (obj_own (deviceStats stats)) ''A''
       = Some \<lparr>totalRecords = 0, insertedRecords = 0,
               errors = [\<lparr>err_record = None, err_deviceId = None,
                          err_error = ''connect timeout'', err_type = None\<rparr>],
               startTime = None, endTime = None\<rparr> \<and>
     map (\<lambda>(k, v). (k, totalRecords v)) (obj_own (deviceStats stats)) = [(''A'', 0), (''B'', 3)]"
proof -
  let ?env = "scriptedEnv deviceADown"
  let ?s0 = "\<lparr>world = 0, trace = [(DbConnect, None)]\<rparr> :: (adapter, nat) run"
  let ?s2 = "\<lparr>world = 0, trace = [(DbConnect, None), (DevGetInfo deviceA, None)]\<rparr>
               :: (adapter, nat) run"
  let ?s3 = "\<lparr>world = 0, trace = [(DbConnect, None), (DevGetInfo deviceA, None),
               (DevConnect deviceA, Some ''connect timeout''), (DevDisconnect deviceA, None)]\<rparr>
               :: (adapter, nat) run"
  let ?st0 = "emptyStats (clock ?env (world (start 0 :: (adapter, nat) run)))"
  obtain result m' s' where run:
    "syncMultipleDevices ?env twoDeviceManager (JSDate 0) (JSDate 1) NoIds (start 0)
       = (result, m', s')"
    by (cases "syncMultipleDevices ?env twoDeviceManager (JSDate 0) (JSDate 1) NoIds (start 0)")
  have res: "resolveDevices twoDeviceManager NoIds
               = (Inr ([] @ deviceA # [deviceB]),
                  twoDeviceManager\<lparr>devices := [(''A'', deviceA), (''B'', deviceB)]\<rparr>)"
    by (simp add: pass_simps registry_simps fixture_simps)
  have conn: "perform DbConnect (db_connect ?env) (start 0) = (Inr (), ?s0)"
    by (simp add: run_simps)
  have before: "syncDevices ?env [] (JSDate 0) (JSDate 1) ?st0 ?s0 = (Inr (emptyStats (JSDate 0)), ?s0)"
    by (simp add: run_simps)
  have info: "perform (DevGetInfo deviceA) (dev_getDeviceInfo ?env deviceA) ?s0
                = (Inr (configInfo deviceA), ?s2)"
    by (simp add: run_simps deviceADown_def)
  have fail: "syncDeviceData ?env deviceA (JSDate 0) (JSDate 1) ?s2 = (Inl ''connect timeout'', ?s3)"
    by (simp add: run_simps deviceADown_def)
  have "\<exists>stPost s4. syncDevices ?env [deviceB] (JSDate 0) (JSDate 1) ?st0 ?s3 = (Inr stPost, s4) \<and>
          totalRecords stPost = 3 \<and> insertedRecords stPost = 3 \<and> errors stPost = []"
    by (simp add: pass_simps fixture_simps run_simps sampleConfig_def Let_def)
  then obtain stPost s4 where
    later: "syncDevices ?env [deviceB] (JSDate 0) (JSDate 1) ?st0 ?s3 = (Inr stPost, s4)"
    and post: "totalRecords stPost = 3" "insertedRecords stPost = 3" "errors stPost = []"
    by blast
  have "\<exists>s5. (if 0 < insertedRecords (emptyStats (JSDate 0)) + insertedRecords stPost
              then updateAllDevicesLastSync ?env ([] @ deviceA # [deviceB]) s4
              else (Inr (), s4)) = (Inr (), s5)"
    by (simp add: pass_simps fixture_simps run_simps)
  then obtain s5 where
    upd: "(if 0 < insertedRecords (emptyStats (JSDate 0)) + insertedRecords stPost
           then updateAllDevicesLastSync ?env ([] @ deviceA # [deviceB]) s4
           else (Inr (), s4)) = (Inr (), s5)"
    by blast
  obtain s6 where disc: "perform DbDisconnect (db_disconnect ?env) s5 = (Inr (), s6)"
    by (simp add: run_simps)
  have eval: "connects (trace s') = [deviceA, deviceB] \<and>
              map_of (obj_own (deviceStats (projr result))) ''A''
                = Some \<lparr>totalRecords = 0, insertedRecords = 0,
                        errors = [\<lparr>err_record = None, err_deviceId = None,
                                   err_error = ''connect timeout'', err_type = None\<rparr>],
                        startTime = None, endTime = None\<rparr> \<and>
              map (\<lambda>(k, v). (k, totalRecords v)) (obj_own (deviceStats (projr result)))
                = [(''A'', 0), (''B'', 3)]"
    using run by (auto simp add: pass_simps registry_simps fixture_simps run_simps Let_def)
  from device_failure_isolated [OF res conn before info fail run] later upd disc
  obtain st4 where "result = Inr (st4\<lparr>endTime := Some (clock ?env (world s6))\<rparr>)"
    "totalRecords st4 = totalRecords (emptyStats (JSDate 0)) + totalRecords stPost"
    "insertedRecords st4 = insertedRecords (emptyStats (JSDate 0)) + insertedRecords stPost"
    "errors st4 =
       errors (emptyStats (JSDate 0)) @
       \<lparr>err_record = None, err_deviceId = Some (info_id (configInfo deviceA)),
        err_error = ''connect timeout'', err_type = Some ''device_sync_error''\<rparr> # errors stPost"
    by blast
  with eval run post show ?thesis
    by (auto simp: emptyStats_def configInfo_def fixture_simps sampleConfig_def)
qed

text \<open>
  The claim as stated fails where something after the failed device throws. In a pass
  over \<^verbatim>\<open>A\<close>, \<^verbatim>\<open>B\<close> and \<^verbatim>\<open>C\<close>, \<^verbatim>\<open>syncDeviceData\<close> throws for \<^verbatim>\<open>A\<close>, which cannot be reached,
  and \<^verbatim>\<open>getDeviceInfo\<close> of \<^verbatim>\<open>B\<close> rejects: the pass throws that rejection instead of
  returning statistics, and \<^verbatim>\<open>C\<close> is never attempted (the calls after the rejection are
  the disconnects of the clean-up).
\<close>

theorem device_failure_isolated_counterexample:
  "resolveDevices threeDeviceManager NoIds
     = (Inr [deviceA, deviceB, deviceC],
        threeDeviceManager\<lparr>devices := [(''A'', deviceA), (''B'', deviceB), (''C'', deviceC)]\<rparr>) \<and>
   syncMultipleDevices (scriptedEnv downThenInfoRejected) threeDeviceManager (JSDate 0) (JSDate 1)
       NoIds (start 0)
     = (Inl ''getDeviceInfo() method must be implemented'', threeDeviceManager,
        \<lparr>world = 0,
         trace = [(DbConnect, None),
                  (DevGetInfo deviceA, None),
                  (DevConnect deviceA, Some ''connect timeout''), (DevDisconnect deviceA, None),
                  (DevGetInfo deviceB, Some ''getDeviceInfo() method must be implemented''),
                  (DevDisconnect deviceA, None), (DevDisconnect deviceB, None),
                  (DevDisconnect deviceC, None), (DbDisconnect, None)]\<rparr>)"
  by (simp add: pass_simps registry_simps fixture_simps run_simps Let_def
        threeDeviceManager_def deviceC_def downThenInfoRejected_def)

section \<open>Aggregation\<close>












text \<open>
  The enumeration order of an object: array indices first, in numeric order; an
  assignment to \<^verbatim>\<open>__proto__\<close> creates no property; an assignment to an existing key keeps
  its place.
\<close>

lemma setProperty_enumeration:
  "ownKeys (setProperty ''1'' b (setProperty ''2'' a emptyObject)) = [''1'', ''2'']"
  "ownKeys (setProperty ''10'' c (setProperty ''x'' b (setProperty ''9'' a emptyObject)))
     = [''9'', ''10'', ''x'']"
  "ownKeys (setProperty ''01'' b (setProperty ''A'' a emptyObject)) = [''A'', ''01'']"
  "setProperty ''B'' b (setProperty ''__proto__'' a emptyObject)
     = \<lparr>obj_proto = Some a, obj_own = [(''B'', b)]\<rparr>"
  "obj_own (setProperty ''A'' c (setProperty ''B'' b (setProperty ''A'' a emptyObject)))
     = [(''A'', c), (''B'', b)]"
  by (simp_all add: ownKeys_def setProperty_def putOwn_def arrayIndex_def isDigit_def
        readNat_def emptyObject_def)

text \<open>
  A pass over the devices \<^verbatim>\<open>2\<close>, \<^verbatim>\<open>__proto__\<close> and \<^verbatim>\<open>1\<close>, three records each: nine records
  at the top level, and two entries in \<^verbatim>\<open>deviceStats\<close>, in numeric order.
\<close>

lemma object_keys_example:
  "map_sum id (\<lambda>st. (totalRecords st, sumTotal (deviceStats st), ownKeys (deviceStats st)))
     (fst (syncMultipleDevices (scriptedEnv allWell) oddKeysManager (JSDate 0) (JSDate 1) NoIds
             (start 0)))
     = Inr (9, 6, [''1'', ''2''])"
  by (simp add: pass_simps registry_simps fixture_simps run_simps Let_def allWell_def
        oddKeysManager_def sumTotal_def ownKeys_def readNat_def)

text \<open>
  A device with more error entries than a call can spread (here with an engine that
  spreads two arguments at most): its three records are counted at the top level, and
  the \<^verbatim>\<open>catch\<close> block replaces its entry in \<^verbatim>\<open>deviceStats\<close> by one with zero counters.
\<close>

lemma spread_failure_example:
  "map_sum id (\<lambda>st. (totalRecords st, insertedRecords st, errors st, obj_own (deviceStats st)))
     (fst (syncMultipleDevices ((scriptedEnv everyWriteFails)\<lparr>maxSpread := 2\<rparr>)
             oneDeviceManager (JSDate 0) (JSDate 1) NoIds (start 0)))
     = Inr (3, 0,
            [\<lparr>err_record = None, err_deviceId = Some ''D1'',
              err_error = ''Maximum call stack size exceeded'',
              err_type = Some ''device_sync_error''\<rparr>],
            [(''D1'', \<lparr>totalRecords = 0, insertedRecords = 0,
                       errors = [\<lparr>err_record = None, err_deviceId = None,
                                  err_error = ''Maximum call stack size exceeded'',
                                  err_type = None\<rparr>],
                       startTime = None, endTime = None\<rparr>)])"
  by (simp add: pass_simps registry_simps fixture_simps run_simps Let_def everyWriteFails_def
        oneDeviceManager_def rangeError_def)








section \<open>A rejected \<^verbatim>\<open>getDeviceInfo\<close> in the device loop\<close>

text \<open>
  Claim C10. The resolved device set is \<open>pre @ d # post\<close>, the loop has handled
  \<open>pre\<close>, and \<^verbatim>\<open>getDeviceInfo\<close> of \<open>d\<close> rejects with \<open>e\<close>. The rejection is outside the
  per-device \<^verbatim>\<open>try\<close>: the pass throws \<open>e\<close> and returns no statistics, so there is no
  error entry for \<open>d\<close>. The rejected call is the last thing the loop does; everything
  after it is the clean-up, a disconnect on each cached adapter and on the database.
  No device of \<open>post\<close> is asked for its info, connected or read.
\<close>

theorem device_info_rejection_aborts:
  assumes res: "resolveDevices m deviceIds = (Inr (pre @ d # post), m1)"
      and conn: "perform DbConnect (db_connect env) s = (Inr u, s0)"
      and before: "syncDevices env pre fromDate toDate (emptyStats (clock env (world s))) s0
                     = (Inr st, s1)"
      and info: "perform (DevGetInfo d) (dev_getDeviceInfo env d) s1 = (Inl e, s2)"
      and run: "syncMultipleDevices env m fromDate toDate deviceIds s = (result, m', s')"
  shows "result = Inl e \<and>
         since s1 s2 = [(DevGetInfo d, Some e)] \<and>
         trace s' = trace s2 @ since s2 s' \<and>
         map fst (since s2 s') = map (\<lambda>(k, a). DevDisconnect a) (devices m1) @ [DbDisconnect] \<and>
         connects (since s2 s') = [] \<and>
         devices m' = []"
proof -
  let ?st0 = "emptyStats (clock env (world s))"
  have "syncDevices env (d # post) fromDate toDate st s1 = (Inl e, s2)"
    using info by simp
  with before have "syncDevices env (pre @ d # post) fromDate toDate ?st0 s0 = (Inl e, s2)"
    by (simp add: syncDevices_append)
  with conn have pass: "syncPass env (pre @ d # post) fromDate toDate ?st0 s = (Inl e, s2)"
    by (simp add: syncPass_def)
  obtain m2 s3 where c: "cleanupConnections env m1 s2 = (m2, s3)"
    by (cases "cleanupConnections env m1 s2")
  from run res pass c have r: "result = Inl e" "m' = m2" "s' = s3"
    by (simp_all add: syncMultipleDevices_def)
  from cleanupConnections_trace [OF c] obtain tr where
    d: "devices m2 = []" and t: "trace s3 = trace s2 @ tr"
    and f: "map fst tr = map (\<lambda>(k, a). DevDisconnect a) (devices m1) @ [DbDisconnect]"
    by blast
  have nc: "connects tr = []" if "map fst tr = map (\<lambda>(k, a). DevDisconnect a) cache @ [DbDisconnect]"
    for cache and tr :: "adapter event list"
    using that
  proof (induction cache arbitrary: tr)
    case Nil
    then obtain x where "tr = [(DbDisconnect, x)]" by (auto simp: map_eq_Cons_conv)
    then show ?case by simp
  next
    case (Cons p cache)
    obtain k a where p: "p = (k, a)" by (cases p)
    with Cons.prems obtain x tr' where "tr = (DevDisconnect a, x) # tr'"
      "map fst tr' = map (\<lambda>(k, a). DevDisconnect a) cache @ [DbDisconnect]"
      by (auto simp: map_eq_Cons_conv)
    with Cons.IH show ?case by simp
  qed
  have s12: "since s1 s2 = [(DevGetInfo d, Some e)]"
    using perform_trace [OF info] by (simp add: since_def rejection_def)
  from since_append [OF t] have "since s2 s3 = tr" .
  with r d t f nc [OF f] s12 show ?thesis by simp
qed

theorem device_info_rejection_aborts_witness:
  "resolveDevices twoDeviceManager NoIds
     = (Inr ([] @ deviceA # [deviceB]),
        twoDeviceManager\<lparr>devices := [(''A'', deviceA), (''B'', deviceB)]\<rparr>) \<and>
   syncMultipleDevices (scriptedEnv infoARejected) twoDeviceManager (JSDate 0) (JSDate 1) NoIds
       (start 0)
     = (Inl ''getDeviceInfo() method must be implemented'', twoDeviceManager,
        \<lparr>world = 0,
         trace = [(DbConnect, None),
                  (DevGetInfo deviceA, Some ''getDeviceInfo() method must be implemented''),
                  (DevDisconnect deviceA, None), (DevDisconnect deviceB, None),
                  (DbDisconnect, None)]\<rparr>)"
proof -
  let ?E = "scriptedEnv infoARejected"
  let ?m1 = "twoDeviceManager\<lparr>devices := [(''A'', deviceA), (''B'', deviceB)]\<rparr>"
  let ?s0 = "\<lparr>world = 0, trace = [(DbConnect, None)]\<rparr> :: (adapter, nat) run"
  let ?s2 = "\<lparr>world = 0, trace = [(DbConnect, None),
               (DevGetInfo deviceA, Some ''getDeviceInfo() method must be implemented'')]\<rparr>
               :: (adapter, nat) run"
  obtain result m' s' where run:
    "syncMultipleDevices ?E twoDeviceManager (JSDate 0) (JSDate 1) NoIds (start 0)
       = (result, m', s')"
    by (cases "syncMultipleDevices ?E twoDeviceManager (JSDate 0) (JSDate 1) NoIds (start 0)")
  have res: "resolveDevices twoDeviceManager NoIds = (Inr ([] @ deviceA # [deviceB]), ?m1)"
    by (simp add: pass_simps registry_simps fixture_simps)
  have conn: "perform DbConnect (db_connect ?E) (start 0) = (Inr (), ?s0)"
    by (simp add: run_simps)
  have before: "syncDevices ?E [] (JSDate 0) (JSDate 1)
                  (emptyStats (clock ?E (world (start 0 :: (adapter, nat) run)))) ?s0
                  = (Inr (emptyStats (JSDate 0)), ?s0)"
    by (simp add: run_simps)
  have info: "perform (DevGetInfo deviceA) (dev_getDeviceInfo ?E deviceA) ?s0
                = (Inl ''getDeviceInfo() method must be implemented'', ?s2)"
    by (simp add: run_simps infoARejected_def)
  have rest: "m' = twoDeviceManager \<and>
        s' = \<lparr>world = 0,
         trace = [(DbConnect, None),
                  (DevGetInfo deviceA, Some ''getDeviceInfo() method must be implemented''),
                  (DevDisconnect deviceA, None), (DevDisconnect deviceB, None),
                  (DbDisconnect, None)]\<rparr>"
    using run
    by (auto simp add: pass_simps registry_simps fixture_simps run_simps infoARejected_def Let_def)
  from device_info_rejection_aborts [OF res conn before info run]
  have "result = Inl ''getDeviceInfo() method must be implemented''" by simp
  with run res rest show ?thesis by simp
qed

section \<open>The checkpoint update\<close>

text \<open>
  The gate in front of the checkpoint update. The device loop never updates a
  checkpoint. In a pass that returns, the update loop ran exactly when something was
  inserted, and then it made one successful update call per device of the pass, in pass
  order, whatever each device had inserted.
\<close>

lemma updateEach_updates:
  "updateEach env ts devs s = (Inr u, s') \<Longrightarrow>
     \<exists>tr. trace s' = trace s @ tr \<and> length (updates tr) = length devs \<and>
          (\<forall>x \<in> set (updates tr). snd x = None)"
proof (induction devs arbitrary: s)
  case Nil
  then show ?case by simp
next
  case (Cons d devs)
  obtain r1 s1 where p: "perform (DevGetInfo d) (dev_getDeviceInfo env d) s = (r1, s1)"
    by (cases "perform (DevGetInfo d) (dev_getDeviceInfo env d) s")
  with Cons.prems obtain i where i: "r1 = Inr i" by (cases r1) auto
  obtain r2 s2 where q: "perform (DbUpdate (info_id i) ts)
      (db_updateBiometricDevice env (info_id i) ts) s1 = (r2, s2)"
    by (cases "perform (DbUpdate (info_id i) ts) (db_updateBiometricDevice env (info_id i) ts) s1")
  with Cons.prems p i obtain v where v: "r2 = Inr v" by (cases r2) auto
  from Cons.prems p i q v have "updateEach env ts devs s2 = (Inr u, s')" by simp
  from Cons.IH [OF this] obtain tr where
    "trace s' = trace s2 @ tr" "length (updates tr) = length devs"
    "\<forall>x \<in> set (updates tr). snd x = None"
    by blast
  with perform_trace [OF p] perform_trace [OF q] i v show ?case
    by (auto simp: updates_append rejection_def)
qed

lemma updateEach_rejection: "updateEach env ts devs s = (Inl e, s') \<Longrightarrow> e = referenceError"
proof (induction devs arbitrary: s)
  case Nil
  then show ?case by simp
next
  case (Cons d devs)
  then show ?case
    by (auto split: prod.splits sum.splits)
qed

lemma checkpoint_gating:
  assumes "syncPass env devs f t st s = (Inr st', s')"
  shows "if insertedRecords st' > 0
         then length (updates (since s s')) = length devs \<and>
              (\<forall>x \<in> set (updates (since s s')). snd x = None)
         else updates (since s s') = []"
proof -
  obtain r0 s0 where c: "perform DbConnect (db_connect env) s = (r0, s0)"
    by (cases "perform DbConnect (db_connect env) s")
  obtain r1 s1 where l: "syncDevices env devs f t st s0 = (r1, s1)"
    by (cases "syncDevices env devs f t st s0")
  let ?u = "\<lambda>st1. if insertedRecords st1 > 0 then updateAllDevicesLastSync env devs s1
                   else (Inr (), s1)"
  from assms c l obtain st1 where r1: "r1 = Inr st1"
    by (cases r0; cases r1) (auto simp: syncPass_def)
  obtain r2 s2 where u: "?u st1 = (r2, s2)" by (cases "?u st1")
  obtain r3 s3 where d: "perform DbDisconnect (db_disconnect env) s2 = (r3, s3)"
    by (cases "perform DbDisconnect (db_disconnect env) s2")
  from assms c l r1 u d have fin: "r2 = Inr ()" "s' = s3" "insertedRecords st' = insertedRecords st1"
    by (cases r0; cases r2; cases r3; auto simp: syncPass_def)+
  from syncDevices_updates [OF l] obtain tr1 where
    t1: "trace s1 = trace s0 @ tr1" "updates tr1 = []" by blast
  have "\<exists>tr2. trace s2 = trace s1 @ tr2 \<and>
          (if insertedRecords st1 > 0
           then length (updates tr2) = length devs \<and> (\<forall>x \<in> set (updates tr2). snd x = None)
           else updates tr2 = [])"
  proof (cases "insertedRecords st1 > 0")
    case True
    with u fin(1) have "updateEach env (syncTimestamp env (world s1)) devs s1 = (Inr (), s2)"
      by (simp add: updateAllDevicesLastSync_def)
    from updateEach_updates [OF this] True show ?thesis by simp
  next
    case False
    with u show ?thesis by simp
  qed
  then obtain tr2 where t2: "trace s2 = trace s1 @ tr2"
    "if insertedRecords st1 > 0
     then length (updates tr2) = length devs \<and> (\<forall>x \<in> set (updates tr2). snd x = None)
     else updates tr2 = []"
    by blast
  have "trace s' = trace s @ ((DbConnect, rejection r0) # tr1 @ tr2 @ [(DbDisconnect, rejection r3)])"
    using perform_trace [OF c] perform_trace [OF d] t1 t2 fin(2) by simp
  from since_append [OF this] t1(2) t2(2) fin(3) show ?thesis
    by (simp add: updates_append)
qed

lemma checkpoint_rejection_throws:
  assumes "perform DbConnect (db_connect env) s = (Inr u, s0)"
      and "syncDevices env devs f t st s0 = (Inr st1, s1)"
      and "insertedRecords st1 > 0"
      and "updateAllDevicesLastSync env devs s1 = (Inl e, s2)"
  shows "syncPass env devs f t st s = (Inl referenceError, s2)"
  using assms updateEach_rejection [of env "syncTimestamp env (world s1)" devs s1 e s2]
  by (simp add: syncPass_def updateAllDevicesLastSync_def)

text \<open>
  Claim C5 fails on the code. Devices \<^verbatim>\<open>A\<close> and \<^verbatim>\<open>B\<close> both deliver three records, all
  six are inserted, and the database rejects the checkpoint update of \<^verbatim>\<open>A\<close>. The
  \<^verbatim>\<open>catch\<close> block of \<^verbatim>\<open>updateAllDevicesLastSync\<close> then throws a \<^verbatim>\<open>ReferenceError\<close> while it
  builds its log message: the rejection is not logged, the checkpoint of \<^verbatim>\<open>B\<close> is never
  attempted, and the pass throws instead of returning its statistics.
\<close>

theorem checkpoint_failure_aborts_pass:
  "syncMultipleDevices (scriptedEnv checkpointARejected) twoDeviceManager (JSDate 0) (JSDate 1)
       NoIds (start 0)
     = (Inl ''deviceInfo is not defined'', twoDeviceManager,
        \<lparr>world = 6,
         trace =
           [(DbConnect, None),
            (DevGetInfo deviceA, None), (DevConnect deviceA, None),
            (DevGetAttendance deviceA, None), (DevDisconnect deviceA, None),
            (DbInsert (punch ''101'' ''2024-01-15 08:00:00''), None),
            (DbInsert (punch ''102'' ''2024-01-15 08:01:00''), None),
            (DbInsert (punch ''103'' ''2024-01-15 08:02:00''), None),
            (DevGetInfo deviceB, None), (DevConnect deviceB, None),
            (DevGetAttendance deviceB, None), (DevDisconnect deviceB, None),
            (DbInsert (punch ''101'' ''2024-01-15 08:00:00''), None),
            (DbInsert (punch ''102'' ''2024-01-15 08:01:00''), None),
            (DbInsert (punch ''103'' ''2024-01-15 08:02:00''), None),
            (DevGetInfo deviceA, None),
            (DbUpdate ''A'' ''2024-01-16 02:00:00'', Some ''deadlock''),
            (DevDisconnect deviceA, None), (DevDisconnect deviceB, None),
            (DbDisconnect, None)]\<rparr>)"
  by (simp add: pass_simps registry_simps fixture_simps run_simps referenceError_def Let_def)

text \<open>
  Claim C4 fails on the code at the same run, through the same defect: the pass
  covers \<^verbatim>\<open>A\<close> and \<^verbatim>\<open>B\<close> and inserts six records, so the checkpoint update is due for
  both devices, and it is attempted for \<^verbatim>\<open>A\<close> only.
\<close>

theorem checkpoint_not_attempted_for_every_device:
  "connects (trace (snd (snd (syncMultipleDevices (scriptedEnv checkpointARejected)
      twoDeviceManager (JSDate 0) (JSDate 1) NoIds (start 0))))) = [deviceA, deviceB] \<and>
   length (okWrites (trace (snd (snd (syncMultipleDevices (scriptedEnv checkpointARejected)
      twoDeviceManager (JSDate 0) (JSDate 1) NoIds (start 0)))))) = 6 \<and>
   updates (trace (snd (snd (syncMultipleDevices (scriptedEnv checkpointARejected)
      twoDeviceManager (JSDate 0) (JSDate 1) NoIds (start 0)))))
     = [(''A'', Some ''deadlock'')]"
  by (simp add: pass_simps registry_simps fixture_simps run_simps referenceError_def Let_def)

section \<open>Single-device mode\<close>

text \<open>
  Claim C7 fails on the code. \<^verbatim>\<open>syncSingleDevice\<close> awaits \<^verbatim>\<open>syncDeviceData\<close>, which writes
  the records, before it connects the database, although the comment in
  \<^verbatim>\<open>syncDeviceData\<close> says that the database connection should already be established.
  With the Firebird adapter every write is rejected with \<^verbatim>\<open>Database not connected\<close> and
  nothing is inserted; the multi-device pass over the same device connects first and
  inserts the three records.
\<close>

theorem single_device_writes_before_connect:
  "map fst (trace (snd (syncSingleDevice (firebirdEnv threeLogs) deviceD1 (JSDate 0) (JSDate 1)
       (start False))))
     = [DevConnect deviceD1, DevGetAttendance deviceD1, DevDisconnect deviceD1,
        DbInsert (punch ''101'' ''2024-01-15 08:00:00''),
        DbInsert (punch ''102'' ''2024-01-15 08:01:00''),
        DbInsert (punch ''103'' ''2024-01-15 08:02:00''),
        DbConnect, DbDisconnect] \<and>
   failedWrites (trace (snd (syncSingleDevice (firebirdEnv threeLogs) deviceD1 (JSDate 0)
       (JSDate 1) (start False))))
     = [(punch ''101'' ''2024-01-15 08:00:00'', ''Database not connected''),
        (punch ''102'' ''2024-01-15 08:01:00'', ''Database not connected''),
        (punch ''103'' ''2024-01-15 08:02:00'', ''Database not connected'')] \<and>
   map_sum id insertedRecords (fst (syncSingleDevice (firebirdEnv threeLogs) deviceD1 (JSDate 0)
       (JSDate 1) (start False))) = Inr 0 \<and>
   map fst (trace (snd (snd (syncMultipleDevices (firebirdEnv threeLogs) oneDeviceManager
       (JSDate 0) (JSDate 1) NoIds (start False)))))
     = [DbConnect, DevGetInfo deviceD1,
        DevConnect deviceD1, DevGetAttendance deviceD1, DevDisconnect deviceD1,
        DbInsert (punch ''101'' ''2024-01-15 08:00:00''),
        DbInsert (punch ''102'' ''2024-01-15 08:01:00''),
        DbInsert (punch ''103'' ''2024-01-15 08:02:00''),
        DevGetInfo deviceD1, DbUpdate ''D1'' ''2024-01-16 02:00:00'', DbDisconnect] \<and>
   map_sum id insertedRecords (fst (syncMultipleDevices (firebirdEnv threeLogs) oneDeviceManager
       (JSDate 0) (JSDate 1) NoIds (start False))) = Inr 3"
  by (simp add: syncSingleDevice_def updateDeviceLastSync_def cleanupConnectionsSingle_def
        pass_simps registry_simps fixture_simps run_simps deviceD1_def threeLogs_def Let_def)

end
